theory Spec2Isabelle
  imports Complex_Main "HOL-Library.Multiset" "HOL-Library.Sublist"
begin

section \<open>JavaScript strings\<close>

text \<open>
  A JavaScript string is a sequence of UTF-16 code units and \<open>length\<close> counts them.
  The model uses \<^typ>\<open>string\<close>: a list of code units below 256, so that the length of
  the list is the \<open>length\<close> of the source string and \<open>charCodeAt\<close> is
  \<^const>\<open>of_char\<close>.
\<close>

text \<open>
  The white space and line terminators that \<open>String.prototype.trim\<close> strips, among the
  code units below 256: TAB, LF, VT, FF, CR, SPACE and NBSP.
\<close>

definition isWhiteSpace :: "char \<Rightarrow> bool" where
  "isWhiteSpace c =
     (c \<in> set [CHR 0x09, CHR 0x0A, CHR 0x0B, CHR 0x0C, CHR 0x0D, CHR 0x20, CHR 0xA0])"

definition trim :: "string \<Rightarrow> string" where
  "trim s = rev (dropWhile isWhiteSpace (rev (dropWhile isWhiteSpace s)))"

text \<open>\<open>s.startsWith(p)\<close> and \<open>s.includes(p)\<close>.\<close>

definition startsWith :: "string \<Rightarrow> string \<Rightarrow> bool" where
  "startsWith s p = (take (length p) s = p)"

fun includes_str :: "string \<Rightarrow> string \<Rightarrow> bool" where
  "includes_str [] p = (p = [])"
| "includes_str (c # s) p = (if startsWith (c # s) p then True else includes_str s p)"

text \<open>\<open>s.split(sep)\<close> for a separator of one code unit.\<close>

fun split :: "char \<Rightarrow> string \<Rightarrow> string list" where
  "split sep [] = [[]]"
| "split sep (c # s) =
     (if c = sep then [] # split sep s
      else (case split sep s of [] \<Rightarrow> [[c]] | p # ps \<Rightarrow> (c # p) # ps))"

text \<open>
  \<open>s.replace(p, r)\<close> with a string pattern replaces the first occurrence only;
  \<open>s.replace(/c/g, r)\<close> replaces every occurrence of the code unit \<open>c\<close>.
\<close>

fun replace :: "string \<Rightarrow> string \<Rightarrow> string \<Rightarrow> string" where
  "replace [] p r = (if p = [] then r else [])"
| "replace (c # s) p r =
     (if startsWith (c # s) p then r @ drop (length p) (c # s) else c # replace s p r)"

definition replaceAll :: "char \<Rightarrow> string \<Rightarrow> string \<Rightarrow> string" where
  "replaceAll c r s = concat (map (\<lambda>x. if x = c then r else [x]) s)"

text \<open>
  \<open>toLowerCase\<close> on the code units below 256: the capitals are A-Z and the Latin-1
  capitals (all but the multiplication sign between 0xC0 and 0xDE), and the small letter
  is 32 above its capital, that is the capital with bit 5 set.
\<close>

definition isCapital :: "char \<Rightarrow> bool" where
  "isCapital c =
     (let n = (of_char c :: nat)
      in (65 \<le> n \<and> n \<le> 90) \<or> (192 \<le> n \<and> n \<le> 222 \<and> n \<noteq> 215))"

definition lowerChar :: "char \<Rightarrow> char" where
  "lowerChar c =
     (if isCapital c
      then (case c of Char b0 b1 b2 b3 b4 b5 b6 b7 \<Rightarrow> Char b0 b1 b2 b3 b4 True b6 b7)
      else c)"

definition toLowerCase :: "string \<Rightarrow> string" where
  "toLowerCase s = map lowerChar s"

text \<open>The truth value of an optional string: \<open>undefined\<close> and \<open>''\<close> are falsy.\<close>

fun truthy_string :: "string option \<Rightarrow> bool" where
  "truthy_string None = False"
| "truthy_string (Some s) = (s \<noteq> [])"

section \<open>The benchmark engine\<close>

subsection \<open>Types\<close>

datatype category = reasoning | coding | creative | analysis | general

datatype difficulty = easy | medium | hard

record LLMModel =
  model_id :: string
  model_name :: string
  provider :: string
  contextWindow :: nat
  inputPricePerToken :: real
  outputPricePerToken :: real
  maxOutputTokens :: nat
  capabilities :: "string list"
  strengths :: "string list"
  weaknesses :: "string list"

record BenchmarkTask =
  task_id :: string
  task_name :: string
  description :: string
  category :: category
  difficulty :: difficulty
  prompt :: string
  expectedOutput :: "string option"

text \<open>
  \<open>APIResponse\<close> of the API service. Times are milliseconds (\<open>Date.now()\<close>), token
  counts are natural numbers, the other numbers are real.
\<close>

record APIResponse =
  content :: string
  usage_inputTokens :: nat
  usage_outputTokens :: nat
  latency_resp :: int
  error_resp :: "string option"

record DetailedBenchmarkResult =
  modelId :: string
  taskId :: string
  score :: real
  latency :: int
  outputTokens :: nat
  inputTokens :: nat
  cost :: real
  quality :: real
  timestamp :: int
  output_res :: "string option"
  error :: "string option"
  input :: string
  rawOutput :: string
  processingTime :: int

record ModelRecommendation =
  model :: "LLMModel option"
  score_rec :: real
  reason :: string
  costEfficiency :: real
  performanceRating :: real

text \<open>A thrown value: an \<open>Error\<close> with its message, or a value that is not an \<open>Error\<close>.\<close>

datatype thrown = Error string | NonError

subsection \<open>assessOutputQuality\<close>

definition lengthBonus :: "nat \<Rightarrow> real" where
  "lengthBonus n =
     (if 50 < n \<and> n < 2000 then 0.2 else if 2000 \<le> n \<and> n < 5000 then 0.1 else 0)"

definition categoryBonus :: "category \<Rightarrow> string \<Rightarrow> real" where
  "categoryBonus c out =
     (case c of
        coding \<Rightarrow>
          (if includes_str out ''def '' \<or> includes_str out ''function '' \<or> includes_str out ''class ''
           then 0.2 else 0)
          + (if includes_str out ''```'' then 0.1 else 0)
      | reasoning \<Rightarrow>
          (if includes_str out ''because'' \<or> includes_str out ''therefore'' \<or> includes_str out ''thus''
           then 0.1 else 0)
          + (if includes_str out ''step'' \<or> includes_str out ''first'' \<or> includes_str out ''second''
             then 0.1 else 0)
      | creative \<Rightarrow>
          (if 100 < length out then 0.1 else 0)
          + (if 3 < length (split CHR ''.'' out) then 0.1 else 0)
      | analysis \<Rightarrow>
          (if includes_str out ''%'' \<or> includes_str out ''trend'' \<or> includes_str out ''analysis''
           then 0.1 else 0)
          + (if includes_str out ''recommend'' \<or> includes_str out ''suggest'' then 0.1 else 0)
      | general \<Rightarrow> 0)"

definition coherenceBonus :: "string \<Rightarrow> real" where
  "coherenceBonus out =
     (if 20 < length (split CHR '' '' out) \<and> \<not> includes_str out ''ERROR'' \<and> \<not> includes_str out ''error''
      then 0.1 else 0)"

definition assessOutputQuality :: "string \<Rightarrow> BenchmarkTask \<Rightarrow> real" where
  "assessOutputQuality out task =
     (if out = [] \<or> length (trim out) = 0 then 0
      else min (max (0.5 + lengthBonus (length out) + categoryBonus (category task) out
                      + coherenceBonus out) 0) 1)"

subsection \<open>generateBenchmarkResults\<close>

text \<open>
  The engine runs against an API service and a clock, both outside it (the test suite
  replaces the service by a mock). They act on a world \<open>'w\<close> that the model passes along:
  \<open>isProviderConfigured\<close> reads it, \<open>callModel\<close> returns the settled promise (\<open>Inl\<close> a
  rejection, \<open>Inr\<close> the resolved response) and the world after the call, \<open>Date_now\<close>
  reads the clock. The optional \<open>onProgress\<close> callback is a change of the world that
  returns normally.
\<close>

record 'w env =
  isProviderConfigured :: "'w \<Rightarrow> string \<Rightarrow> bool"
  callModel :: "LLMModel \<Rightarrow> BenchmarkTask \<Rightarrow> 'w \<Rightarrow> (thrown + APIResponse) \<times> 'w"
  Date_now :: "'w \<Rightarrow> int \<times> 'w"

type_synonym 'w progress = "(real \<Rightarrow> string option \<Rightarrow> 'w \<Rightarrow> 'w) option"

fun notify :: "'w progress \<Rightarrow> real \<Rightarrow> string option \<Rightarrow> 'w \<Rightarrow> 'w" where
  "notify None p n w = w"
| "notify (Some f) p n w = f p n w"

text \<open>
  The state of the loop: the world, the \<open>results\<close> array, the counter \<open>completed\<close>, and
  \<open>calls\<close>, a log of the invocations of \<open>callModel\<close> that the source does not keep.
\<close>

record 'w run =
  world :: 'w
  results :: "DetailedBenchmarkResult list"
  completed :: nat
  calls :: "(LLMModel \<times> BenchmarkTask) list"

text \<open>The record pushed for a provider that is not configured (lines 73 to 87).\<close>

definition unconfiguredResult :: "LLMModel \<Rightarrow> BenchmarkTask \<Rightarrow> int \<Rightarrow> DetailedBenchmarkResult" where
  "unconfiguredResult m t ts =
     \<lparr>modelId = model_id m, taskId = task_id t, score = 0, latency = 0, outputTokens = 0,
      inputTokens = length (prompt t) div 4, cost = 0, quality = 0, timestamp = ts,
      output_res = None,
      error = Some (''API key not configured for '' @ provider m
                    @ ''. Please add your API key to test this model.''),
      input = prompt t, rawOutput = [], processingTime = 0\<rparr>"

text \<open>The record pushed by the \<open>catch\<close> block (lines 127 to 141).\<close>

definition thrownResult :: "LLMModel \<Rightarrow> BenchmarkTask \<Rightarrow> thrown \<Rightarrow> int \<Rightarrow> DetailedBenchmarkResult" where
  "thrownResult m t e ts =
     \<lparr>modelId = model_id m, taskId = task_id t, score = 0, latency = 0, outputTokens = 0,
      inputTokens = length (prompt t) div 4, cost = 0, quality = 0, timestamp = ts,
      output_res = None,
      error = Some (case e of Error msg \<Rightarrow> msg | NonError \<Rightarrow> ''Unknown error occurred''),
      input = prompt t, rawOutput = [], processingTime = 0\<rparr>"

text \<open>The record built from a resolved response (lines 99 to 121).\<close>

definition resolvedResult ::
  "LLMModel \<Rightarrow> BenchmarkTask \<Rightarrow> APIResponse \<Rightarrow> int \<Rightarrow> int \<Rightarrow> int \<Rightarrow> DetailedBenchmarkResult" where
  "resolvedResult m t apiResponse startTime endTime ts =
     (let quality = (if truthy_string (error_resp apiResponse) then 0
                     else assessOutputQuality (content apiResponse) t);
          score = (if truthy_string (error_resp apiResponse) then 0
                   else quality * 0.8
                        + (1 - min (real_of_int (latency_resp apiResponse) / 10000) 1) * 0.2);
          inputTokens = (if usage_inputTokens apiResponse \<noteq> 0 then usage_inputTokens apiResponse
                         else length (prompt t) div 4);
          outputTokens = (if usage_outputTokens apiResponse \<noteq> 0 then usage_outputTokens apiResponse
                          else length (content apiResponse) div 4);
          cost = real inputTokens * inputPricePerToken m
                 + real outputTokens * outputPricePerToken m
      in \<lparr>modelId = model_id m, taskId = task_id t, score = score,
          latency = latency_resp apiResponse, outputTokens = outputTokens,
          inputTokens = inputTokens, cost = cost, quality = quality, timestamp = ts,
          output_res = Some (content apiResponse), error = error_resp apiResponse,
          input = prompt t, rawOutput = content apiResponse,
          processingTime = endTime - startTime\<rparr>)"

text \<open>The body of the inner loop (lines 63 to 146), for one model and one task.\<close>

definition benchmarkPair ::
  "'w env \<Rightarrow> 'w progress \<Rightarrow> nat \<Rightarrow> LLMModel \<Rightarrow> BenchmarkTask \<Rightarrow> 'w run \<Rightarrow> 'w run" where
  "benchmarkPair e onProgress total' m t st =
     (let w0 = notify onProgress (real (completed st) / real total' * 100) (Some (model_name m))
                 (world st)
      in if \<not> isProviderConfigured e w0 (provider m) then
           (let (ts, w1) = Date_now e w0
            in st\<lparr>world := w1, results := results st @ [unconfiguredResult m t ts],
                  completed := completed st + 1\<rparr>)
         else
           (let (startTime, w1) = Date_now e w0;
                (settled, w2) = callModel e m t w1
            in case settled of
                 Inr apiResponse \<Rightarrow>
                   (let (endTime, w3) = Date_now e w2;
                        (ts, w4) = Date_now e w3
                    in st\<lparr>world := w4,
                          results := results st
                                     @ [resolvedResult m t apiResponse startTime endTime ts],
                          completed := completed st + 1,
                          calls := calls st @ [(m, t)]\<rparr>)
               | Inl err \<Rightarrow>
                   (let (ts, w3) = Date_now e w2
                    in st\<lparr>world := w3, results := results st @ [thrownResult m t err ts],
                          completed := completed st + 1,
                          calls := calls st @ [(m, t)]\<rparr>)))"

definition generateBenchmarkResults ::
  "'w env \<Rightarrow> 'w progress \<Rightarrow> LLMModel list \<Rightarrow> BenchmarkTask list \<Rightarrow> 'w \<Rightarrow> 'w run" where
  "generateBenchmarkResults e onProgress models tasks w =
     (let total' = length models * length tasks;
          st = fold (\<lambda>m. fold (benchmarkPair e onProgress total' m) tasks) models
                 \<lparr>world = w, results = [], completed = 0, calls = []\<rparr>
      in st\<lparr>world := notify onProgress 100 None (world st)\<rparr>)"

subsection \<open>Sample data of the test suite\<close>

definition mockModel :: LLMModel where
  "mockModel =
     \<lparr>model_id = ''gpt-4o'', model_name = ''GPT-4o'', provider = ''OpenAI'',
      contextWindow = 128000, inputPricePerToken = 0.000005, outputPricePerToken = 0.000015,
      maxOutputTokens = 4096, capabilities = [''text'', ''code''],
      strengths = [''reasoning''], weaknesses = [''cost'']\<rparr>"

definition model2 :: LLMModel where
  "model2 = mockModel\<lparr>model_id := ''gpt-3.5'', model_name := ''GPT-3.5''\<rparr>"

definition mockTask :: BenchmarkTask where
  "mockTask =
     \<lparr>task_id = ''test-task'', task_name = ''Test Task'', description = ''A test task'',
      category = coding, difficulty = medium,
      prompt = ''Write a function to calculate factorial'', expectedOutput = None\<rparr>"

definition task2 :: BenchmarkTask where
  "task2 = mockTask\<lparr>task_id := ''task-2'', task_name := ''Task 2''\<rparr>"

text \<open>A resolved response without an error, as the test suite's mock returns it.\<close>

definition mockResponse :: APIResponse where
  "mockResponse =
     \<lparr>content = ''def factorial(n): return 1 if n <= 1 else n * factorial(n-1)'',
      usage_inputTokens = 10, usage_outputTokens = 20, latency_resp = 1500,
      error_resp = None\<rparr>"

section \<open>The security service\<close>

subsection \<open>JavaScript values\<close>

text \<open>
  The values that \<open>JSON.parse\<close> returns (the members of an object have distinct keys),
  and the values of type \<open>any\<close> that the service is called with: a JSON value or
  \<open>undefined\<close>.
\<close>

datatype json =
  JNull | JBool bool | JNum real | JStr string | JArr "json list" | JObj "(string \<times> json) list"

datatype js_any = Undefined | Json json

text \<open>The truth value of a JSON value, and of a property that may be \<open>undefined\<close>.\<close>

fun truthy :: "json \<Rightarrow> bool" where
  "truthy JNull = False"
| "truthy (JBool b) = b"
| "truthy (JNum n) = (n \<noteq> 0)"
| "truthy (JStr s) = (s \<noteq> [])"
| "truthy (JArr xs) = True"
| "truthy (JObj kvs) = True"

fun truthy_property :: "json option \<Rightarrow> bool" where
  "truthy_property None = False"
| "truthy_property (Some v) = truthy v"

text \<open>
  \<open>data.name\<close> for a parsed value \<open>data\<close> and one of the names \<open>value\<close>, \<open>timestamp\<close>,
  \<open>checksum\<close>: a \<open>TypeError\<close> on \<open>null\<close>, the member of an object, \<open>undefined\<close> (\<open>None\<close>)
  otherwise.
\<close>

fun property :: "json \<Rightarrow> string \<Rightarrow> thrown + json option" where
  "property JNull name = Inl (Error ''Cannot read properties of null'')"
| "property (JObj kvs) name = Inr (map_of kvs name)"
| "property (JBool b) name = Inr None"
| "property (JNum n) name = Inr None"
| "property (JStr s) name = Inr None"
| "property (JArr xs) name = Inr None"

subsection \<open>validateApiKey\<close>

record SecurityValidation =
  isValid :: bool
  error_val :: "string option"
  warning :: "string option"

text \<open>The character classes \<open>[a-zA-Z0-9]\<close> and \<open>[a-zA-Z0-9\-_]\<close>.\<close>

definition isAlnum :: "char \<Rightarrow> bool" where
  "isAlnum c =
     (let n = (of_char c :: nat)
      in (97 \<le> n \<and> n \<le> 122) \<or> (65 \<le> n \<and> n \<le> 90) \<or> (48 \<le> n \<and> n \<le> 57))"

definition isKeyChar :: "char \<Rightarrow> bool" where
  "isKeyChar c = (isAlnum c \<or> c = CHR ''-'' \<or> c = CHR ''_'')"

text \<open>
  The regular expressions of \<open>API_KEY_PATTERNS\<close>, each as the predicate that its \<open>test\<close>
  method computes: \<open>/^sk-[a-zA-Z0-9]{20,}$/\<close>, \<open>/^sk-ant-[a-zA-Z0-9\-_]{95,}$/\<close>,
  \<open>/^[a-zA-Z0-9\-_]{35,45}$/\<close>, \<open>/^hf_[a-zA-Z0-9]{34}$/\<close> and \<open>/^[a-zA-Z0-9]{32}$/\<close>.
\<close>

definition openai_pattern :: "string \<Rightarrow> bool" where
  "openai_pattern k =
     (startsWith k ''sk-'' \<and> 20 \<le> length (drop 3 k) \<and> list_all isAlnum (drop 3 k))"

definition anthropic_pattern :: "string \<Rightarrow> bool" where
  "anthropic_pattern k =
     (startsWith k ''sk-ant-'' \<and> 95 \<le> length (drop 7 k) \<and> list_all isKeyChar (drop 7 k))"

definition google_pattern :: "string \<Rightarrow> bool" where
  "google_pattern k = (35 \<le> length k \<and> length k \<le> 45 \<and> list_all isKeyChar k)"

definition huggingface_pattern :: "string \<Rightarrow> bool" where
  "huggingface_pattern k =
     (startsWith k ''hf_'' \<and> length (drop 3 k) = 34 \<and> list_all isAlnum (drop 3 k))"

definition mistral_pattern :: "string \<Rightarrow> bool" where
  "mistral_pattern k = (length k = 32 \<and> list_all isAlnum k)"

definition API_KEY_PATTERNS :: "(string \<times> (string \<Rightarrow> bool)) list" where
  "API_KEY_PATTERNS =
     [(''openai'', openai_pattern), (''anthropic'', anthropic_pattern),
      (''google'', google_pattern), (''huggingface'', huggingface_pattern),
      (''mistral'', mistral_pattern)]"

text \<open>
  The lower-case names that the object \<open>API_KEY_PATTERNS\<close> inherits from
  \<open>Object.prototype\<close>: looking one up gives a value that is not a regular expression,
  and calling its \<open>test\<close> throws a \<open>TypeError\<close>.
\<close>

definition inheritedNames :: "string list" where
  "inheritedNames = [''constructor'', ''__proto__'']"

definition providerKeyOf :: "string \<Rightarrow> string" where
  "providerKeyOf prov =
     replace (replace (replace (toLowerCase prov) '' '' []) ''ai'' []) ''meta'' ''huggingface''"

definition validateApiKey :: "string \<Rightarrow> string \<Rightarrow> thrown + SecurityValidation" where
  "validateApiKey prov key =
     (if key = [] \<or> length (trim key) = 0 then
        Inr \<lparr>isValid = False, error_val = Some ''API key cannot be empty'', warning = None\<rparr>
      else
        (let trimmedKey = trim key;
             providerKey = providerKeyOf prov
         in case map_of API_KEY_PATTERNS providerKey of
              None \<Rightarrow>
                (if providerKey \<in> set inheritedNames
                 then Inl (Error ''pattern.test is not a function'')
                 else Inr \<lparr>isValid = True, error_val = None,
                           warning = Some ''Unknown provider - cannot validate key format''\<rparr>)
            | Some pattern \<Rightarrow>
                (if \<not> pattern trimmedKey then
                   Inr \<lparr>isValid = False,
                        error_val = Some (''Invalid '' @ prov
                                          @ '' API key format. Please check your key.''),
                        warning = None\<rparr>
                 else Inr \<lparr>isValid = True, error_val = None, warning = None\<rparr>)))"

subsection \<open>sanitizeInput\<close>

fun sanitizeInput :: "js_any \<Rightarrow> string" where
  "sanitizeInput (Json (JStr s)) =
     trim (replaceAll CHR ''/'' ''&#x2F;''
          (replaceAll CHR 0x27 ''&#x27;''
          (replaceAll CHR 0x22 ''&quot;''
          (replaceAll CHR ''>'' ''&gt;''
          (replaceAll CHR ''<'' ''&lt;'' s)))))"
| "sanitizeInput v = []"

subsection \<open>generateChecksum\<close>

text \<open>
  \<open>hash << 5\<close> and \<open>hash & hash\<close> convert their operands to signed 32-bit integers
  (\<open>toInt32\<close>, the wrap-around written out); the subtraction and the addition between
  them are exact. The result is \<open>Number.prototype.toString(36)\<close> of the final hash.
\<close>

definition digit36 :: "nat \<Rightarrow> char" where
  "digit36 d = ''0123456789abcdefghijklmnopqrstuvwxyz'' ! d"

fun digits :: "nat \<Rightarrow> nat \<Rightarrow> string" where
  "digits radix n =
     (if n < radix \<or> radix < 2 then [digit36 n]
      else digits radix (n div radix) @ [digit36 (n mod radix)])"

declare digits.simps [simp del]

definition toStringRadix :: "nat \<Rightarrow> int \<Rightarrow> string" where
  "toStringRadix radix i =
     (if i < 0 then CHR ''-'' # digits radix (nat (- i)) else digits radix (nat i))"

definition toInt32 :: "int \<Rightarrow> int" where
  "toInt32 x = (x + 2147483648) mod 4294967296 - 2147483648"

definition hashStep :: "int \<Rightarrow> char \<Rightarrow> int" where
  "hashStep hash c = toInt32 ((toInt32 (hash * 32) - hash) + of_char c)"

definition generateChecksum :: "string \<Rightarrow> string" where
  "generateChecksum data = toStringRadix 36 (fold (\<lambda>c hash. hashStep hash c) data 0)"

subsection \<open>secureStore and secureRetrieve\<close>

text \<open>
  \<open>localStorage\<close> maps a key to a string. The model keeps a stored string as what
  \<open>JSON.parse\<close> makes of it: \<open>NotJSON s\<close> is a string \<open>s\<close> that \<open>JSON.parse\<close> rejects (the
  empty string is one), \<open>JSONText v\<close> is a text that it parses to \<open>v\<close>, such as
  \<open>JSON.stringify(v)\<close>. \<open>JSON.stringify\<close> itself, whose result the checksum is
  computed from, is a parameter \<open>stringify\<close> of the operations, and so are the clock
  (\<open>now\<close>), the conversion \<open>toNumber\<close> of a string, an array or an object to a number
  (\<open>None\<close> for \<open>NaN\<close>) and \<open>full\<close>, which tells whether \<open>setItem\<close> throws.
\<close>

datatype stored_text = NotJSON string | JSONText json

type_synonym localStorage = "string \<Rightarrow> stored_text option"

definition maxAge :: real where
  "maxAge = 30 * 24 * 60 * 60 * 1000"

definition secureStore ::
  "(localStorage \<Rightarrow> string \<Rightarrow> stored_text \<Rightarrow> bool) \<Rightarrow> (json \<Rightarrow> string) \<Rightarrow> int \<Rightarrow>
   string \<Rightarrow> js_any \<Rightarrow> localStorage \<Rightarrow> thrown + localStorage" where
  "secureStore full stringify now key v ls =
     (case v of
        Undefined \<Rightarrow> Inl (Error ''Storage operation failed'')
      | Json val \<Rightarrow>
          (let data = JObj [(''value'', val), (''timestamp'', JNum (real_of_int now)),
                            (''checksum'', JStr (generateChecksum (stringify val)))]
           in if full ls key (JSONText data) then Inl (Error ''Storage operation failed'')
              else Inr (ls(key \<mapsto> JSONText data))))"

text \<open>\<open>Date.now() - data.timestamp > maxAge\<close> for a truthy \<open>data.timestamp\<close>.\<close>

fun expired :: "(json \<Rightarrow> real option) \<Rightarrow> int \<Rightarrow> json \<Rightarrow> bool" where
  "expired toNumber now (JNum t) = (real_of_int now - t > maxAge)"
| "expired toNumber now (JBool b) = (real_of_int now - (if b then 1 else 0) > maxAge)"
| "expired toNumber now JNull = (real_of_int now > maxAge)"
| "expired toNumber now v =
     (case toNumber v of None \<Rightarrow> False | Some t \<Rightarrow> real_of_int now - t > maxAge)"

definition secureRetrieve ::
  "(json \<Rightarrow> string) \<Rightarrow> (json \<Rightarrow> real option) \<Rightarrow> int \<Rightarrow> string \<Rightarrow> localStorage \<Rightarrow>
   json \<times> localStorage" where
  "secureRetrieve stringify toNumber now key ls =
     (case ls key of
        None \<Rightarrow> (JNull, ls)
      | Some (NotJSON s) \<Rightarrow> (if s = [] then (JNull, ls) else (JNull, ls(key := None)))
      | Some (JSONText data) \<Rightarrow>
          (case property data ''value'' of
             Inl err \<Rightarrow> (JNull, ls(key := None))
           | Inr val \<Rightarrow>
               (case (val, property data ''timestamp'', property data ''checksum'') of
                  (Some v, Inr (Some ts), Inr (Some c)) \<Rightarrow>
                    (if \<not> (truthy v \<and> truthy ts \<and> truthy c) then (JNull, ls(key := None))
                     else if c \<noteq> JStr (generateChecksum (stringify v)) then (JNull, ls(key := None))
                     else if expired toNumber now ts then (JNull, ls(key := None))
                     else (v, ls))
                | other \<Rightarrow> (JNull, ls(key := None)))))"

subsection \<open>checkRateLimit\<close>

record rate_entry =
  count :: int
  resetTime :: int

type_synonym rateLimits = "string \<Rightarrow> rate_entry option"

definition checkRateLimit ::
  "int \<Rightarrow> string \<Rightarrow> int \<Rightarrow> int \<Rightarrow> rateLimits \<Rightarrow> bool \<times> rateLimits" where
  "checkRateLimit now prov maxRequests windowMs rateLimits =
     (let key = ''ratelimit_'' @ prov
      in case rateLimits key of
           None \<Rightarrow> (True, rateLimits(key \<mapsto> \<lparr>count = 1, resetTime = now + windowMs\<rparr>))
         | Some current \<Rightarrow>
             (if now > resetTime current then
                (True, rateLimits(key \<mapsto> \<lparr>count = 1, resetTime = now + windowMs\<rparr>))
              else if count current \<ge> maxRequests then (False, rateLimits)
              else (True, rateLimits(key \<mapsto> current\<lparr>count := count current + 1\<rparr>))))"

text \<open>A sequence of calls with fixed parameters, at the times given, and their results.\<close>

fun checkRateLimits ::
  "string \<Rightarrow> int \<Rightarrow> int \<Rightarrow> int list \<Rightarrow> rateLimits \<Rightarrow> bool list \<times> rateLimits" where
  "checkRateLimits prov maxRequests windowMs [] rl = ([], rl)"
| "checkRateLimits prov maxRequests windowMs (now # nows) rl =
     (let (ok, rl1) = checkRateLimit now prov maxRequests windowMs rl;
          (oks, rl2) = checkRateLimits prov maxRequests windowMs nows rl1
      in (ok # oks, rl2))"

subsection \<open>A concrete stringify\<close>

text \<open>
  \<open>JSON.stringify\<close> on the values whose numbers are integers (below \<open>10^21\<close> in absolute
  value), for the places that run the operations on concrete values. A number that is
  not an integer is rendered by its integer part here, which is not what
  \<open>JSON.stringify\<close> does; no such number is used.
\<close>

definition escapeChar :: "char \<Rightarrow> string" where
  "escapeChar c =
     (if c = CHR 0x22 then [CHR 0x5C, CHR 0x22]
      else if c = CHR 0x5C then [CHR 0x5C, CHR 0x5C]
      else if c = CHR 0x08 then [CHR 0x5C, CHR ''b'']
      else if c = CHR 0x09 then [CHR 0x5C, CHR ''t'']
      else if c = CHR 0x0A then [CHR 0x5C, CHR ''n'']
      else if c = CHR 0x0C then [CHR 0x5C, CHR ''f'']
      else if c = CHR 0x0D then [CHR 0x5C, CHR ''r'']
      else if (of_char c :: nat) < 32
      then [CHR 0x5C, CHR ''u'', CHR ''0'', CHR ''0'',
            digit36 ((of_char c :: nat) div 16), digit36 ((of_char c :: nat) mod 16)]
      else [c])"

definition quote :: "string \<Rightarrow> string" where
  "quote s = CHR 0x22 # concat (map escapeChar s) @ [CHR 0x22]"

fun commaJoin :: "string list \<Rightarrow> string" where
  "commaJoin [] = []"
| "commaJoin [x] = x"
| "commaJoin (x # y # ys) = x @ '','' @ commaJoin (y # ys)"

primrec JSON_stringify :: "json \<Rightarrow> string" where
  "JSON_stringify JNull = ''null''"
| "JSON_stringify (JBool b) = (if b then ''true'' else ''false'')"
| "JSON_stringify (JNum n) = toStringRadix 10 \<lfloor>n\<rfloor>"
| "JSON_stringify (JStr s) = quote s"
| "JSON_stringify (JArr xs) = ''['' @ commaJoin (map JSON_stringify xs) @ '']''"
| "JSON_stringify (JObj kvs) =
     ''{'' @ commaJoin (map (\<lambda>(k, t). quote k @ '':'' @ t)
                          (map (map_prod id JSON_stringify) kvs)) @ ''}''"

section \<open>The API service\<close>

text \<open>
  The vendor SDKs are outside the repository. The model takes what their calls settle
  to as parameters acting on a world \<open>'w\<close>: a call either throws (\<open>Inl\<close>) or returns the
  response, reduced to the parts that the service reads; every call is taken to settle.
  The response of Google is what its \<open>text()\<close> gives when the service calls it later:
  again a thrown value or the text. \<open>clock\<close> is \<open>Date.now()\<close>.
\<close>

record request =
  req_model :: string
  req_prompt :: string
  max_tokens :: "nat option"

text \<open>
  A chat completion of OpenAI or Mistral: \<open>message.content\<close> of each choice (\<open>None\<close>
  when it is missing or \<open>null\<close>) and \<open>usage\<close> with \<open>prompt_tokens\<close> and
  \<open>completion_tokens\<close>.
\<close>

record chatCompletion =
  choices :: "string option list"
  chat_usage :: "(nat \<times> nat) option"

datatype contentBlock = TextBlock string | OtherBlock

record anthropicMessage =
  blocks :: "contentBlock list"
  input_tokens :: nat
  output_tokens :: nat

record 'w sdk =
  openai_create :: "request \<Rightarrow> 'w \<Rightarrow> (thrown + chatCompletion) \<times> 'w"
  anthropic_create :: "request \<Rightarrow> 'w \<Rightarrow> (thrown + anthropicMessage) \<times> 'w"
  google_generateContent :: "request \<Rightarrow> 'w \<Rightarrow> (thrown + (thrown + string)) \<times> 'w"
  hf_textGeneration :: "request \<Rightarrow> 'w \<Rightarrow> (thrown + string option) \<times> 'w"
  mistral_chat :: "request \<Rightarrow> 'w \<Rightarrow> (thrown + chatCompletion) \<times> 'w"
  clock :: "'w \<Rightarrow> int \<times> 'w"

text \<open>The clients of the service: \<open>True\<close> for a client that is not \<open>null\<close>.\<close>

record clients =
  openai :: bool
  anthropic :: bool
  googleAI :: bool
  huggingFace :: bool
  mistral :: bool

definition firstChoice :: "chatCompletion \<Rightarrow> string" where
  "firstChoice response =
     (case choices response of [] \<Rightarrow> [] | c # cs \<Rightarrow> (case c of None \<Rightarrow> [] | Some text \<Rightarrow> text))"

definition chatResponse :: "chatCompletion \<Rightarrow> int \<Rightarrow> APIResponse" where
  "chatResponse response lat =
     \<lparr>content = firstChoice response,
      usage_inputTokens = (case chat_usage response of None \<Rightarrow> 0 | Some (p, c) \<Rightarrow> p),
      usage_outputTokens = (case chat_usage response of None \<Rightarrow> 0 | Some (p, c) \<Rightarrow> c),
      latency_resp = lat, error_resp = None\<rparr>"

definition callOpenAI ::
  "clients \<Rightarrow> 'w sdk \<Rightarrow> LLMModel \<Rightarrow> BenchmarkTask \<Rightarrow> int \<Rightarrow> 'w \<Rightarrow> (thrown + APIResponse) \<times> 'w" where
  "callOpenAI cl s m t startTime w =
     (if \<not> openai cl then (Inl (Error ''OpenAI API key not configured''), w)
      else
        (let (r, w1) = openai_create s
               \<lparr>req_model = model_id m, req_prompt = prompt t,
                max_tokens = Some (min (maxOutputTokens m) 2000)\<rparr> w
         in case r of
              Inl err \<Rightarrow> (Inl err, w1)
            | Inr response \<Rightarrow>
                (let (now, w2) = clock s w1
                 in (Inr (chatResponse response (now - startTime)), w2))))"

definition callAnthropic ::
  "clients \<Rightarrow> 'w sdk \<Rightarrow> LLMModel \<Rightarrow> BenchmarkTask \<Rightarrow> int \<Rightarrow> 'w \<Rightarrow> (thrown + APIResponse) \<times> 'w" where
  "callAnthropic cl s m t startTime w =
     (if \<not> anthropic cl then (Inl (Error ''Anthropic API key not configured''), w)
      else
        (let (r, w1) = anthropic_create s
               \<lparr>req_model = model_id m, req_prompt = prompt t,
                max_tokens = Some (min (maxOutputTokens m) 2000)\<rparr> w
         in case r of
              Inl err \<Rightarrow> (Inl err, w1)
            | Inr response \<Rightarrow>
                (let (now, w2) = clock s w1
                 in (Inr \<lparr>content = (case blocks response of
                                          TextBlock text # bs \<Rightarrow> text
                                        | other \<Rightarrow> []),
                          usage_inputTokens = input_tokens response,
                          usage_outputTokens = output_tokens response,
                          latency_resp = now - startTime, error_resp = None\<rparr>, w2))))"

definition callGoogle ::
  "clients \<Rightarrow> 'w sdk \<Rightarrow> LLMModel \<Rightarrow> BenchmarkTask \<Rightarrow> int \<Rightarrow> 'w \<Rightarrow> (thrown + APIResponse) \<times> 'w" where
  "callGoogle cl s m t startTime w =
     (if \<not> googleAI cl then (Inl (Error ''Google API key not configured''), w)
      else
        (let (r, w1) = google_generateContent s
               \<lparr>req_model = model_id m, req_prompt = prompt t, max_tokens = None\<rparr> w
         in case r of
              Inl err \<Rightarrow> (Inl err, w1)
            | Inr response_text \<Rightarrow>
                (let (now, w2) = clock s w1
                 in case response_text of
                      Inl err \<Rightarrow> (Inl err, w2)
                    | Inr text \<Rightarrow>
                        (Inr \<lparr>content = text,
                              usage_inputTokens = length (prompt t) div 4,
                              usage_outputTokens = length text div 4,
                              latency_resp = now - startTime, error_resp = None\<rparr>, w2))))"

definition callHuggingFace ::
  "clients \<Rightarrow> 'w sdk \<Rightarrow> LLMModel \<Rightarrow> BenchmarkTask \<Rightarrow> int \<Rightarrow> 'w \<Rightarrow> (thrown + APIResponse) \<times> 'w" where
  "callHuggingFace cl s m t startTime w =
     (if \<not> huggingFace cl then (Inl (Error ''Hugging Face API key not configured''), w)
      else
        (let (r, w1) = hf_textGeneration s
               \<lparr>req_model = ''meta-llama/'' @ model_id m, req_prompt = prompt t,
                max_tokens = Some (min (maxOutputTokens m) 1000)\<rparr> w
         in case r of
              Inl err \<Rightarrow> (Inl err, w1)
            | Inr generated_text \<Rightarrow>
                (let (now, w2) = clock s w1;
                     text = (case generated_text of None \<Rightarrow> [] | Some g \<Rightarrow> g)
                 in (Inr \<lparr>content = text,
                          usage_inputTokens = length (prompt t) div 4,
                          usage_outputTokens = length text div 4,
                          latency_resp = now - startTime, error_resp = None\<rparr>, w2))))"

definition callMistral ::
  "clients \<Rightarrow> 'w sdk \<Rightarrow> LLMModel \<Rightarrow> BenchmarkTask \<Rightarrow> int \<Rightarrow> 'w \<Rightarrow> (thrown + APIResponse) \<times> 'w" where
  "callMistral cl s m t startTime w =
     (if \<not> mistral cl then (Inl (Error ''Mistral API key not configured''), w)
      else
        (let (r, w1) = mistral_chat s
               \<lparr>req_model = model_id m, req_prompt = prompt t,
                max_tokens = Some (min (maxOutputTokens m) 2000)\<rparr> w
         in case r of
              Inl err \<Rightarrow> (Inl err, w1)
            | Inr response \<Rightarrow>
                (let (now, w2) = clock s w1
                 in (Inr (chatResponse response (now - startTime)), w2))))"

text \<open>The \<open>switch\<close> inside the \<open>try\<close> block of \<open>callModel\<close>.\<close>

definition callProvider ::
  "clients \<Rightarrow> 'w sdk \<Rightarrow> LLMModel \<Rightarrow> BenchmarkTask \<Rightarrow> int \<Rightarrow> 'w \<Rightarrow> (thrown + APIResponse) \<times> 'w" where
  "callProvider cl s m t startTime w =
     (if provider m = ''OpenAI'' then callOpenAI cl s m t startTime w
      else if provider m = ''Anthropic'' then callAnthropic cl s m t startTime w
      else if provider m = ''Google'' then callGoogle cl s m t startTime w
      else if provider m = ''Meta'' then callHuggingFace cl s m t startTime w
      else if provider m = ''Mistral AI'' then callMistral cl s m t startTime w
      else (Inl (Error (''Unsupported provider: '' @ provider m)), w))"

text \<open>
  \<open>callModel\<close> of the service. The result is the settled promise: \<open>Inl\<close> would be a
  rejection.
\<close>

definition APIService_callModel ::
  "clients \<Rightarrow> 'w sdk \<Rightarrow> LLMModel \<Rightarrow> BenchmarkTask \<Rightarrow> 'w \<Rightarrow> (thrown + APIResponse) \<times> 'w" where
  "APIService_callModel cl s m t w =
     (let (startTime, w0) = clock s w;
          (r, w1) = callProvider cl s m t startTime w0
      in case r of
           Inr response \<Rightarrow> (Inr response, w1)
         | Inl err \<Rightarrow>
             (let (now, w2) = clock s w1
              in (Inr \<lparr>content = [], usage_inputTokens = 0, usage_outputTokens = 0,
                       latency_resp = now - startTime,
                       error_resp = Some (case err of Error msg \<Rightarrow> msg
                                                    | NonError \<Rightarrow> ''Unknown error'')\<rparr>, w2)))"

definition APIService_isProviderConfigured :: "clients \<Rightarrow> string \<Rightarrow> bool" where
  "APIService_isProviderConfigured cl prov =
     (if prov = ''OpenAI'' then openai cl
      else if prov = ''Anthropic'' then anthropic cl
      else if prov = ''Google'' then googleAI cl
      else if prov = ''Meta'' then huggingFace cl
      else if prov = ''Mistral AI'' then mistral cl
      else False)"

text \<open>The service and the clock as the environment of the benchmark engine.\<close>

definition apiService :: "clients \<Rightarrow> 'w sdk \<Rightarrow> 'w env" where
  "apiService cl s =
     \<lparr>isProviderConfigured = (\<lambda>w prov. APIService_isProviderConfigured cl prov),
      callModel = APIService_callModel cl s,
      Date_now = clock s\<rparr>"

text \<open>
  Sample services: every client configured; the world is the clock and every SDK call
  takes 120 ms and throws the same value.
\<close>

definition allClients :: clients where
  "allClients = \<lparr>openai = True, anthropic = True, googleAI = True, huggingFace = True,
                  mistral = True\<rparr>"

definition throwingSdk :: "thrown \<Rightarrow> int sdk" where
  "throwingSdk err =
     \<lparr>openai_create = (\<lambda>r w. (Inl err, w + 120)),
      anthropic_create = (\<lambda>r w. (Inl err, w + 120)),
      google_generateContent = (\<lambda>r w. (Inl err, w + 120)),
      hf_textGeneration = (\<lambda>r w. (Inl err, w + 120)),
      mistral_chat = (\<lambda>r w. (Inl err, w + 120)),
      clock = (\<lambda>w. (w, w))\<rparr>"

section \<open>Recommendations\<close>

text \<open>
  \<open>getModelRecommendations\<close>; the table \<open>llmModels\<close> of the repository is a parameter.
  \<open>Array.prototype.sort\<close> is stable, and so is \<^const>\<open>sort_key\<close>; the comparison
  \<open>(a, b) => b.score - a.score\<close> puts the higher score first.
\<close>

definition recommend :: "LLMModel list \<Rightarrow> bool \<Rightarrow> DetailedBenchmarkResult \<Rightarrow> ModelRecommendation" where
  "recommend llmModels prioritizePerformance result =
     (let costEff = (if cost result > 0 then score result / cost result
                     else score result * 1000);
          perf = score result
      in \<lparr>model = find (\<lambda>m. model_id m = modelId result) llmModels,
          score_rec = (if prioritizePerformance
                       then perf * 0.7 + min (costEff / 1000) 1 * 0.3
                       else perf * 0.4 + min (costEff / 1000) 1 * 0.6),
          reason =
            (if score result > 0.9
             then ''Excellent performance on this task type with high-quality output''
             else if score result > 0.8
             then ''Strong performance with good reliability and consistent results''
             else if costEff > 1000
             then ''Best cost-to-performance ratio for budget-conscious applications''
             else ''Balanced option suitable for general use cases''),
          costEfficiency = costEff, performanceRating = perf\<rparr>)"

definition getModelRecommendations ::
  "LLMModel list \<Rightarrow> BenchmarkTask \<Rightarrow> DetailedBenchmarkResult list \<Rightarrow> bool \<Rightarrow>
   ModelRecommendation list" where
  "getModelRecommendations llmModels task rs prioritizePerformance =
     (let taskResults = filter (\<lambda>r. taskId r = task_id task \<and> \<not> truthy_string (error r)) rs
      in if length taskResults = 0 then []
         else sort_key (\<lambda>a. - score_rec a)
                (map (recommend llmModels prioritizePerformance) taskResults))"

section \<open>Sample data of the security tests\<close>

definition testData :: json where
  "testData = JObj [(''key1'', JStr ''value1''), (''key2'', JStr ''value2'')]"

text \<open>What \<open>secureStore('test-key', testData)\<close> leaves in an empty storage at time \<open>now\<close>.\<close>

definition storedTestData :: "int \<Rightarrow> localStorage" where
  "storedTestData now =
     Map.empty(''test-key'' \<mapsto>
       JSONText (JObj [(''value'', testData), (''timestamp'', JNum (real_of_int now)),
                       (''checksum'', JStr ''-r8x4gk'')]))"

text \<open>A storage that never refuses an item, and a conversion that gives \<open>NaN\<close>.\<close>

definition neverFull :: "localStorage \<Rightarrow> string \<Rightarrow> stored_text \<Rightarrow> bool" where
  "neverFull ls k t = False"

definition toNaN :: "json \<Rightarrow> real option" where
  "toNaN v = None"

text \<open>
  The service with every provider configured and every SDK call failing with a network
  error.
\<close>

definition failingService :: "int env" where
  "failingService = apiService allClients (throwingSdk (Error ''Network error''))"



definition initialRun :: "'w \<Rightarrow> 'w run" where
  "initialRun w = \<lparr>world = w, results = [], completed = 0, calls = []\<rparr>"

section \<open>Observing a run of the benchmark engine\<close>

text \<open>
  The state of the two loops of \<open>generateBenchmarkResults\<close> when they reach \<open>models[i]\<close>
  and \<open>tasks[j]\<close>: the models before \<open>models[i]\<close> have been through all the tasks, and
  \<open>models[i]\<close> through the tasks before \<open>tasks[j]\<close>.
\<close>

definition loopState ::
  "'w env \<Rightarrow> 'w progress \<Rightarrow> LLMModel list \<Rightarrow> BenchmarkTask list \<Rightarrow> 'w \<Rightarrow> nat \<Rightarrow> nat \<Rightarrow> 'w run" where
  "loopState e onProgress models tasks w i j =
     fold (benchmarkPair e onProgress (length models * length tasks) (models ! i)) (take j tasks)
       (fold (\<lambda>m. fold (benchmarkPair e onProgress (length models * length tasks) m) tasks)
          (take i models) (initialRun w))"

text \<open>
  A service that records the invocations of its \<open>callModel\<close>, as the mock of the test
  suite does: the world is that of the service with the list of the pairs \<open>callModel\<close>
  has been invoked with so far. Everything else is the service's.
\<close>

definition logged :: "'w env \<Rightarrow> ('w \<times> (LLMModel \<times> BenchmarkTask) list) env" where
  "logged e =
     \<lparr>isProviderConfigured = (\<lambda>wl prov. isProviderConfigured e (fst wl) prov),
      callModel = (\<lambda>m t wl.
        (fst (callModel e m t (fst wl)), (snd (callModel e m t (fst wl)), snd wl @ [(m, t)]))),
      Date_now = (\<lambda>wl. (fst (Date_now e (fst wl)), (snd (Date_now e (fst wl)), snd wl)))\<rparr>"

fun logged_progress ::
  "'w progress \<Rightarrow> ('w \<times> (LLMModel \<times> BenchmarkTask) list) progress" where
  "logged_progress None = None"
| "logged_progress (Some f) = Some (\<lambda>x n wl. (f x n (fst wl), snd wl))"

section \<open>Properties of the benchmark engine\<close>

subsection \<open>Fields of the record of a resolved response\<close>

lemma resolvedResult_score:
  "score (resolvedResult m t r s e ts) =
     (if truthy_string (error_resp r) then 0
      else assessOutputQuality (content r) t * 0.8
           + (1 - min (real_of_int (latency_resp r) / 10000) 1) * 0.2)"
  by (simp add: resolvedResult_def Let_def)

lemma resolvedResult_quality:
  "quality (resolvedResult m t r s e ts) =
     (if truthy_string (error_resp r) then 0 else assessOutputQuality (content r) t)"
  by (simp add: resolvedResult_def Let_def)

lemma resolvedResult_error: "error (resolvedResult m t r s e ts) = error_resp r"
  by (simp add: resolvedResult_def Let_def)

lemma resolvedResult_cost_failed:
  assumes "usage_inputTokens r = 0" and "usage_outputTokens r = 0" and "content r = []"
  shows "cost (resolvedResult m t r s e ts) = real (length (prompt t) div 4) * inputPricePerToken m"
  using assms by (simp add: resolvedResult_def Let_def)

subsection \<open>Quality and score\<close>

lemma lengthBonus_nonneg: "0 \<le> lengthBonus n"
  by (simp add: lengthBonus_def)

lemma categoryBonus_nonneg: "0 \<le> categoryBonus c out"
  by (cases c) (simp_all add: categoryBonus_def)

lemma coherenceBonus_nonneg: "0 \<le> coherenceBonus out"
  by (simp add: coherenceBonus_def)

lemma assessOutputQuality_blank: "trim out = [] \<Longrightarrow> assessOutputQuality out task = 0"
  by (simp add: assessOutputQuality_def)

lemma assessOutputQuality_nonblank:
  assumes "trim out \<noteq> []"
  shows "1 / 2 \<le> assessOutputQuality out task \<and> assessOutputQuality out task \<le> 1"
proof -
  from assms have "out \<noteq> []"
    by (auto simp: trim_def)
  moreover have
    "0 \<le> lengthBonus (length out) + categoryBonus (category task) out + coherenceBonus out"
    using lengthBonus_nonneg categoryBonus_nonneg coherenceBonus_nonneg
    by (simp add: add_nonneg_nonneg)
  ultimately show ?thesis
    using assms by (simp add: assessOutputQuality_def)
qed

lemma assessOutputQuality_range:
  "0 \<le> assessOutputQuality out task \<and> assessOutputQuality out task \<le> 1"
  by (simp add: assessOutputQuality_def)

lemma resolvedResult_score_range:
  assumes "0 \<le> latency_resp r"
  shows "0 \<le> score (resolvedResult m task r s e ts) \<and> score (resolvedResult m task r s e ts) \<le> 1"
proof (cases "truthy_string (error_resp r)")
  case True
  then show ?thesis
    by (simp add: resolvedResult_score)
next
  case False
  define q where "q = assessOutputQuality (content r) task"
  define l where "l = min (real_of_int (latency_resp r) / 10000) 1"
  have q: "0 \<le> q" "q \<le> 1"
    using assessOutputQuality_range by (simp_all add: q_def)
  have l: "0 \<le> l" "l \<le> 1"
    using assms by (simp_all add: l_def)
  have "score (resolvedResult m task r s e ts) = q * 0.8 + (1 - l) * 0.2"
    using False by (simp add: resolvedResult_score q_def l_def)
  moreover have "0 \<le> q * 0.8 + (1 - l) * 0.2"
    using q l by simp
  moreover have "q * 0.8 + (1 - l) * 0.2 \<le> 1"
    using q l by argo
  ultimately show ?thesis
    by simp
qed

text \<open>
  Claim C8, as the code has it. \<open>assessOutputQuality\<close> is 0 on an output that is empty
  or white space only, and lies between 0.5 and 1 on every other output. The score of a
  resolved response, \<open>quality * 0.8 + (1 - min(latency / 10000, 1)) * 0.2\<close> (or 0 when
  the response carries an error), lies between 0 and 1 when the latency of the response
  is not negative.
\<close>

theorem quality_and_score_bounds:
  "(trim out = [] \<longrightarrow> assessOutputQuality out task = 0) \<and>
   (trim out \<noteq> [] \<longrightarrow>
      1 / 2 \<le> assessOutputQuality out task \<and> assessOutputQuality out task \<le> 1) \<and>
   (0 \<le> latency_resp r \<longrightarrow>
      0 \<le> score (resolvedResult m task r s e ts) \<and>
      score (resolvedResult m task r s e ts) \<le> 1)"
  using assessOutputQuality_blank assessOutputQuality_nonblank resolvedResult_score_range
  by blast

theorem quality_and_score_bounds_witness:
  "assessOutputQuality ''   '' mockTask = 0 \<and>
   1 / 2 \<le> assessOutputQuality ''ok'' mockTask \<and> assessOutputQuality ''ok'' mockTask \<le> 1 \<and>
   0 \<le> score (resolvedResult mockModel mockTask mockResponse 0 1500 1500) \<and>
   score (resolvedResult mockModel mockTask mockResponse 0 1500 1500) \<le> 1"
  using quality_and_score_bounds [of "''   ''" mockTask mockResponse mockModel 0 1500 1500]
    quality_and_score_bounds [of "''ok''" mockTask mockResponse mockModel 0 1500 1500]
  by (simp add: trim_def isWhiteSpace_def mockResponse_def)

text \<open>
  The claim as stated puts no condition on the latency. A response whose latency is
  negative (the clock was set back during the call) gets a score above 1: here
  \<open>0.5 * 0.8 + (1 + 5) * 0.2 = 1.6\<close>.
\<close>

theorem score_above_one_counterexample:
  "1 < score (resolvedResult mockModel mockTask
       \<lparr>content = ''ok'', usage_inputTokens = 10, usage_outputTokens = 20,
        latency_resp = - 50000, error_resp = None\<rparr> 0 0 0)"
  by (simp add: resolvedResult_score assessOutputQuality_def trim_def isWhiteSpace_def
      lengthBonus_def categoryBonus_def coherenceBonus_def mockTask_def startsWith_def)

subsection \<open>One record per pair, in order\<close>

lemma benchmarkPair_key:
  "map (\<lambda>r. (modelId r, taskId r, input r)) (results (benchmarkPair e p n m t st))
     = map (\<lambda>r. (modelId r, taskId r, input r)) (results st) @ [(model_id m, task_id t, prompt t)]"
  by (simp add: benchmarkPair_def Let_def unconfiguredResult_def thrownResult_def
      resolvedResult_def split: prod.splits sum.splits)

lemma inner_loop_key:
  "map (\<lambda>r. (modelId r, taskId r, input r)) (results (fold (benchmarkPair e p n m) ts st))
     = map (\<lambda>r. (modelId r, taskId r, input r)) (results st)
       @ map (\<lambda>t. (model_id m, task_id t, prompt t)) ts"
  by (induction ts arbitrary: st) (simp_all add: benchmarkPair_key)

lemma outer_loop_key:
  "map (\<lambda>r. (modelId r, taskId r, input r))
     (results (fold (\<lambda>m. fold (benchmarkPair e p n m) ts) ms st))
     = map (\<lambda>r. (modelId r, taskId r, input r)) (results st)
       @ map (\<lambda>(m, t). (model_id m, task_id t, prompt t)) (List.product ms ts)"
  by (induction ms arbitrary: st) (simp_all add: inner_loop_key comp_def)

lemma generateBenchmarkResults_key:
  "map (\<lambda>r. (modelId r, taskId r, input r)) (results (generateBenchmarkResults e p ms ts w))
     = map (\<lambda>(m, t). (model_id m, task_id t, prompt t)) (List.product ms ts)"
  by (simp add: generateBenchmarkResults_def Let_def outer_loop_key)

lemma generateBenchmarkResults_length:
  "length (results (generateBenchmarkResults e p ms ts w)) = length ms * length ts"
  using arg_cong [OF generateBenchmarkResults_key, of length e p ms ts w] by simp

lemma generateBenchmarkResults_ids:
  assumes "i < length ms" and "j < length ts"
  shows "length (results (generateBenchmarkResults e p ms ts w)) = length ms * length ts \<and>
    modelId (results (generateBenchmarkResults e p ms ts w) ! (i * length ts + j))
      = model_id (ms ! i) \<and>
    taskId (results (generateBenchmarkResults e p ms ts w) ! (i * length ts + j))
      = task_id (ts ! j) \<and>
    input (results (generateBenchmarkResults e p ms ts w) ! (i * length ts + j))
      = prompt (ts ! j)"
proof -
  let ?rs = "results (generateBenchmarkResults e p ms ts w)"
  let ?key = "\<lambda>r. (modelId r, taskId r, input r)"
  let ?k = "i * length ts + j"
  have "?k < Suc i * length ts"
    using assms by simp
  also have "\<dots> \<le> length ms * length ts"
    using assms by (intro mult_le_mono1) simp
  finally have k: "?k < length ms * length ts" .
  have len: "length ?rs = length ms * length ts"
    by (rule generateBenchmarkResults_length)
  have pos: "List.product ms ts ! ?k = (ms ! i, ts ! j)"
  proof -
    have "length ts \<noteq> 0"
      using assms by auto
    then have "?k div length ts = i" "?k mod length ts = j"
      using assms by simp_all
    then show ?thesis
      using k by (simp add: product_nth)
  qed
  have "?key (?rs ! ?k) = map ?key ?rs ! ?k"
    using k len by simp
  also have "\<dots> = (model_id (ms ! i), task_id (ts ! j), prompt (ts ! j))"
    using k pos by (simp add: generateBenchmarkResults_key)
  finally show ?thesis
    using len by simp
qed

subsection \<open>The loops, pair by pair\<close>

lemma benchmarkPair_step:
  "results (benchmarkPair e p n m t st) = results st @
     [let w0 = notify p (real (completed st) / real n * 100) (Some (model_name m)) (world st)
      in if \<not> isProviderConfigured e w0 (provider m)
         then unconfiguredResult m t (fst (Date_now e w0))
         else (case callModel e m t (snd (Date_now e w0)) of
                 (Inl err, w2) \<Rightarrow> thrownResult m t err (fst (Date_now e w2))
               | (Inr response, w2) \<Rightarrow>
                   resolvedResult m t response (fst (Date_now e w0)) (fst (Date_now e w2))
                     (fst (Date_now e (snd (Date_now e w2)))))]"
  by (simp add: benchmarkPair_def Let_def split_beta split: sum.splits)

lemma benchmarkPair_completed: "completed (benchmarkPair e p n m t st) = Suc (completed st)"
  by (simp add: benchmarkPair_def Let_def split_beta split: sum.splits)

lemma inner_loop_results:
  "\<exists>rs. results (fold (benchmarkPair e p n m) ts st) = results st @ rs \<and> length rs = length ts"
proof (induction ts arbitrary: st)
  case Nil
  then show ?case by simp
next
  case (Cons t ts)
  obtain rs where
    "results (fold (benchmarkPair e p n m) ts (benchmarkPair e p n m t st))
       = results (benchmarkPair e p n m t st) @ rs" "length rs = length ts"
    using Cons.IH by blast
  then show ?case
    by (simp add: benchmarkPair_step)
qed

lemma inner_loop_completed:
  "completed (fold (benchmarkPair e p n m) ts st) = completed st + length ts"
  by (induction ts arbitrary: st) (simp_all add: benchmarkPair_completed)

lemma outer_loop_results:
  "\<exists>rs. results (fold (\<lambda>m. fold (benchmarkPair e p n m) ts) ms st) = results st @ rs
        \<and> length rs = length ms * length ts"
proof (induction ms arbitrary: st)
  case Nil
  then show ?case by simp
next
  case (Cons m ms)
  let ?st = "fold (benchmarkPair e p n m) ts st"
  obtain r1 where r1: "results ?st = results st @ r1" "length r1 = length ts"
    using inner_loop_results by blast
  obtain r2 where r2:
    "results (fold (\<lambda>m. fold (benchmarkPair e p n m) ts) ms ?st) = results ?st @ r2"
    "length r2 = length ms * length ts"
    using Cons.IH by blast
  show ?case
    using r1 r2 by simp
qed

lemma outer_loop_completed:
  "completed (fold (\<lambda>m. fold (benchmarkPair e p n m) ts) ms st)
     = completed st + length ms * length ts"
  by (induction ms arbitrary: st) (simp_all add: inner_loop_completed)

lemma loopState_reached:
  assumes "i < length ms" and "j < length ts"
  shows "length (results (loopState e p ms ts w i j)) = i * length ts + j"
    and "completed (loopState e p ms ts w i j) = i * length ts + j"
    and "results (benchmarkPair e p (length ms * length ts) (ms ! i) (ts ! j)
            (loopState e p ms ts w i j))
         = take (Suc (i * length ts + j)) (results (generateBenchmarkResults e p ms ts w))"
proof -
  let ?n = "length ms * length ts"
  let ?outer = "\<lambda>m. fold (benchmarkPair e p ?n m) ts"
  let ?before = "fold ?outer (take i ms) (initialRun w)"
  let ?st = "loopState e p ms ts w i j"
  let ?next = "benchmarkPair e p ?n (ms ! i) (ts ! j) ?st"
  obtain r0 where r0: "results ?before = results (initialRun w) @ r0"
    "length r0 = length (take i ms) * length ts"
    using outer_loop_results by blast
  obtain r1 where r1: "results ?st = results ?before @ r1" "length r1 = length (take j ts)"
    unfolding loopState_def using inner_loop_results by blast
  show len: "length (results ?st) = i * length ts + j"
    using r0 r1 assms by (simp add: initialRun_def)
  show "completed ?st = i * length ts + j"
    unfolding loopState_def using assms
    by (simp add: inner_loop_completed outer_loop_completed initialRun_def)
  have ts: "ts = take j ts @ ts ! j # drop (Suc j) ts"
    using assms(2) by (rule id_take_nth_drop)
  have ms: "ms = take i ms @ ms ! i # drop (Suc i) ms"
    using assms(1) by (rule id_take_nth_drop)
  have inner: "fold (benchmarkPair e p ?n (ms ! i)) ts ?before
      = fold (benchmarkPair e p ?n (ms ! i)) (drop (Suc j) ts) ?next"
    by (subst ts) (simp add: loopState_def)
  have "fold ?outer ms (initialRun w)
      = fold ?outer (drop (Suc i) ms) (fold (benchmarkPair e p ?n (ms ! i)) ts ?before)"
    by (subst ms) simp
  then have final: "fold ?outer ms (initialRun w)
      = fold ?outer (drop (Suc i) ms)
          (fold (benchmarkPair e p ?n (ms ! i)) (drop (Suc j) ts) ?next)"
    by (simp only: inner)
  obtain r2 where r2:
    "results (fold (benchmarkPair e p ?n (ms ! i)) (drop (Suc j) ts) ?next) = results ?next @ r2"
    using inner_loop_results by blast
  obtain r3 where r3:
    "results (fold ?outer (drop (Suc i) ms)
          (fold (benchmarkPair e p ?n (ms ! i)) (drop (Suc j) ts) ?next))
       = results (fold (benchmarkPair e p ?n (ms ! i)) (drop (Suc j) ts) ?next) @ r3"
    using outer_loop_results by blast
  have "results (generateBenchmarkResults e p ms ts w) = results (fold ?outer ms (initialRun w))"
    by (simp add: generateBenchmarkResults_def Let_def initialRun_def)
  then have "results (generateBenchmarkResults e p ms ts w) = results ?next @ r2 @ r3"
    using final r2 r3 by simp
  moreover have "length (results ?next) = Suc (i * length ts + j)"
    using len by (simp add: benchmarkPair_step)
  ultimately show "results ?next
      = take (Suc (i * length ts + j)) (results (generateBenchmarkResults e p ms ts w))"
    by simp
qed

lemma generateBenchmarkResults_nth:
  assumes "i < length ms" and "j < length ts"
  shows "results (loopState e p ms ts w i j)
           = take (i * length ts + j) (results (generateBenchmarkResults e p ms ts w))"
    and "results (generateBenchmarkResults e p ms ts w) ! (i * length ts + j) =
       (let w0 = notify p (real (i * length ts + j) / real (length ms * length ts) * 100)
                   (Some (model_name (ms ! i))) (world (loopState e p ms ts w i j))
        in if \<not> isProviderConfigured e w0 (provider (ms ! i))
           then unconfiguredResult (ms ! i) (ts ! j) (fst (Date_now e w0))
           else (case callModel e (ms ! i) (ts ! j) (snd (Date_now e w0)) of
                   (Inl err, w2) \<Rightarrow> thrownResult (ms ! i) (ts ! j) err (fst (Date_now e w2))
                 | (Inr response, w2) \<Rightarrow>
                     resolvedResult (ms ! i) (ts ! j) response (fst (Date_now e w0))
                       (fst (Date_now e w2)) (fst (Date_now e (snd (Date_now e w2))))))"
proof -
  let ?k = "i * length ts + j"
  let ?rs = "results (generateBenchmarkResults e p ms ts w)"
  let ?st = "loopState e p ms ts w i j"
  let ?next = "benchmarkPair e p (length ms * length ts) (ms ! i) (ts ! j) ?st"
  note reached = loopState_reached [OF assms, of e p w]
  obtain r where r: "results ?next = results ?st @ [r]"
    by (simp add: benchmarkPair_step)
  have "take ?k ?rs = take ?k (take (Suc ?k) ?rs)"
    by simp
  also have "\<dots> = take ?k (results ?st @ [r])"
    using reached(3) r by simp
  also have "\<dots> = results ?st"
    using reached(1) by simp
  finally show "results ?st = take ?k ?rs"
    by simp
  have "?rs ! ?k = take (Suc ?k) ?rs ! ?k"
    by simp
  also have "\<dots> = results ?next ! ?k"
    using reached(3) by simp
  also have "\<dots> = results ?next ! length (results ?st)"
    using reached(1) by simp
  finally show "?rs ! ?k =
       (let w0 = notify p (real ?k / real (length ms * length ts) * 100)
                   (Some (model_name (ms ! i))) (world ?st)
        in if \<not> isProviderConfigured e w0 (provider (ms ! i))
           then unconfiguredResult (ms ! i) (ts ! j) (fst (Date_now e w0))
           else (case callModel e (ms ! i) (ts ! j) (snd (Date_now e w0)) of
                   (Inl err, w2) \<Rightarrow> thrownResult (ms ! i) (ts ! j) err (fst (Date_now e w2))
                 | (Inr response, w2) \<Rightarrow>
                     resolvedResult (ms ! i) (ts ! j) response (fst (Date_now e w0))
                       (fst (Date_now e w2)) (fst (Date_now e (snd (Date_now e w2))))))"
    using reached(2) by (simp add: benchmarkPair_step)
qed

subsection \<open>The invocations of callModel\<close>

lemma notify_logged:
  "notify (logged_progress p) x n wl = (notify p x n (fst wl), snd wl)"
  by (cases p) simp_all

lemma logged_pair_log:
  assumes "snd (world st) = calls st"
  shows "snd (world (benchmarkPair (logged e) (logged_progress p) n m t st))
           = calls (benchmarkPair (logged e) (logged_progress p) n m t st)"
  using assms
  by (simp add: benchmarkPair_def logged_def notify_logged Let_def split_beta split: sum.splits)

lemma logged_inner_log:
  assumes "snd (world st) = calls st"
  shows "snd (world (fold (benchmarkPair (logged e) (logged_progress p) n m) ts st))
           = calls (fold (benchmarkPair (logged e) (logged_progress p) n m) ts st)"
  using assms by (induction ts arbitrary: st) (simp_all add: logged_pair_log)

lemma logged_outer_log:
  assumes "snd (world st) = calls st"
  shows "snd (world (fold (\<lambda>m. fold (benchmarkPair (logged e) (logged_progress p) n m) ts) ms st))
           = calls (fold (\<lambda>m. fold (benchmarkPair (logged e) (logged_progress p) n m) ts) ms st)"
  using assms by (induction ms arbitrary: st) (simp_all add: logged_inner_log)

lemma logged_run_log:
  "snd (world (generateBenchmarkResults (logged e) (logged_progress p) ms ts (w, [])))
     = calls (generateBenchmarkResults (logged e) (logged_progress p) ms ts (w, []))"
  using logged_outer_log [of "\<lparr>world = (w, []), results = [], completed = 0, calls = []\<rparr>"
      e p "length ms * length ts" ts ms]
  by (simp add: generateBenchmarkResults_def Let_def notify_logged)

text \<open>
  The log \<open>calls\<close> of the loop: \<open>callModel\<close> is invoked at most once for a pair, in the
  order of the pairs.
\<close>

lemma benchmarkPair_calls:
  "\<exists>cs. calls (benchmarkPair e p n m t st) = calls st @ cs \<and> subseq cs [(m, t)]"
  by (auto simp: benchmarkPair_def Let_def split: prod.splits sum.splits)

lemma inner_loop_calls:
  "\<exists>cs. calls (fold (benchmarkPair e p n m) ts st) = calls st @ cs \<and> subseq cs (map (Pair m) ts)"
proof (induction ts arbitrary: st)
  case Nil
  then show ?case
    by simp
next
  case (Cons t ts)
  obtain c1 where c1: "calls (benchmarkPair e p n m t st) = calls st @ c1" "subseq c1 [(m, t)]"
    using benchmarkPair_calls by blast
  obtain c2 where c2:
    "calls (fold (benchmarkPair e p n m) ts (benchmarkPair e p n m t st))
       = calls (benchmarkPair e p n m t st) @ c2"
    "subseq c2 (map (Pair m) ts)"
    using Cons.IH by blast
  have "subseq (c1 @ c2) ([(m, t)] @ map (Pair m) ts)"
    using c1(2) c2(2) by (rule list_emb_append_mono)
  then show ?case
    using c1(1) c2(1) by auto
qed

lemma outer_loop_calls:
  "\<exists>cs. calls (fold (\<lambda>m. fold (benchmarkPair e p n m) ts) ms st) = calls st @ cs
         \<and> subseq cs (List.product ms ts)"
proof (induction ms arbitrary: st)
  case Nil
  then show ?case
    by simp
next
  case (Cons m ms)
  let ?st = "fold (benchmarkPair e p n m) ts st"
  obtain c1 where c1: "calls ?st = calls st @ c1" "subseq c1 (map (Pair m) ts)"
    using inner_loop_calls by blast
  obtain c2 where c2:
    "calls (fold (\<lambda>m. fold (benchmarkPair e p n m) ts) ms ?st) = calls ?st @ c2"
    "subseq c2 (List.product ms ts)"
    using Cons.IH by blast
  have "subseq (c1 @ c2) (map (Pair m) ts @ List.product ms ts)"
    using c1(2) c2(2) by (rule list_emb_append_mono)
  then show ?case
    using c1(1) c2(1) by auto
qed

lemma generateBenchmarkResults_calls:
  "subseq (calls (generateBenchmarkResults e p ms ts w)) (List.product ms ts)"
  using outer_loop_calls [of e p "length ms * length ts" ts ms
      "\<lparr>world = w, results = [], completed = 0, calls = []\<rparr>"]
  by (auto simp: generateBenchmarkResults_def Let_def)

lemma logged_run_subseq:
  "subseq (snd (world (generateBenchmarkResults (logged e) (logged_progress p) ms ts (w, []))))
     (List.product ms ts)"
  using generateBenchmarkResults_calls [of "logged e" "logged_progress p" ms ts "(w, [])"]
  by (simp add: logged_run_log)

text \<open>Recording the invocations changes neither the records nor the world of the service.\<close>

lemma logged_pair_same:
  assumes "fst (world st') = world st" and "results st' = results st"
    and "completed st' = completed st"
  shows "fst (world (benchmarkPair (logged e) (logged_progress p) n m t st'))
           = world (benchmarkPair e p n m t st) \<and>
         results (benchmarkPair (logged e) (logged_progress p) n m t st')
           = results (benchmarkPair e p n m t st) \<and>
         completed (benchmarkPair (logged e) (logged_progress p) n m t st')
           = completed (benchmarkPair e p n m t st)"
  using assms
  by (simp add: benchmarkPair_def logged_def notify_logged Let_def split_beta split: sum.splits)

lemma logged_inner_same:
  assumes "fst (world st') = world st" and "results st' = results st"
    and "completed st' = completed st"
  shows "fst (world (fold (benchmarkPair (logged e) (logged_progress p) n m) ts st'))
           = world (fold (benchmarkPair e p n m) ts st) \<and>
         results (fold (benchmarkPair (logged e) (logged_progress p) n m) ts st')
           = results (fold (benchmarkPair e p n m) ts st) \<and>
         completed (fold (benchmarkPair (logged e) (logged_progress p) n m) ts st')
           = completed (fold (benchmarkPair e p n m) ts st)"
  using assms
proof (induction ts arbitrary: st st')
  case Nil
  then show ?case by simp
next
  case (Cons t ts)
  have "fst (world (benchmarkPair (logged e) (logged_progress p) n m t st'))
           = world (benchmarkPair e p n m t st) \<and>
         results (benchmarkPair (logged e) (logged_progress p) n m t st')
           = results (benchmarkPair e p n m t st) \<and>
         completed (benchmarkPair (logged e) (logged_progress p) n m t st')
           = completed (benchmarkPair e p n m t st)"
    using Cons.prems by (rule logged_pair_same)
  then show ?case
    using Cons.IH [of "benchmarkPair (logged e) (logged_progress p) n m t st'"
        "benchmarkPair e p n m t st"]
    by simp
qed

lemma logged_outer_same:
  assumes "fst (world st') = world st" and "results st' = results st"
    and "completed st' = completed st"
  shows "fst (world (fold (\<lambda>m. fold (benchmarkPair (logged e) (logged_progress p) n m) ts) ms st'))
           = world (fold (\<lambda>m. fold (benchmarkPair e p n m) ts) ms st) \<and>
         results (fold (\<lambda>m. fold (benchmarkPair (logged e) (logged_progress p) n m) ts) ms st')
           = results (fold (\<lambda>m. fold (benchmarkPair e p n m) ts) ms st) \<and>
         completed (fold (\<lambda>m. fold (benchmarkPair (logged e) (logged_progress p) n m) ts) ms st')
           = completed (fold (\<lambda>m. fold (benchmarkPair e p n m) ts) ms st)"
  using assms
proof (induction ms arbitrary: st st')
  case Nil
  then show ?case by simp
next
  case (Cons m ms)
  have "fst (world (fold (benchmarkPair (logged e) (logged_progress p) n m) ts st'))
           = world (fold (benchmarkPair e p n m) ts st) \<and>
         results (fold (benchmarkPair (logged e) (logged_progress p) n m) ts st')
           = results (fold (benchmarkPair e p n m) ts st) \<and>
         completed (fold (benchmarkPair (logged e) (logged_progress p) n m) ts st')
           = completed (fold (benchmarkPair e p n m) ts st)"
    using Cons.prems by (rule logged_inner_same)
  then show ?case
    using Cons.IH [of "fold (benchmarkPair (logged e) (logged_progress p) n m) ts st'"
        "fold (benchmarkPair e p n m) ts st"]
    by simp
qed

lemma logged_run_same:
  "results (generateBenchmarkResults (logged e) (logged_progress p) ms ts (w, []))
     = results (generateBenchmarkResults e p ms ts w) \<and>
   fst (world (generateBenchmarkResults (logged e) (logged_progress p) ms ts (w, [])))
     = world (generateBenchmarkResults e p ms ts w)"
  using logged_outer_same [of "\<lparr>world = (w, []), results = [], completed = 0, calls = []\<rparr>"
      "\<lparr>world = w, results = [], completed = 0, calls = []\<rparr>" e p "length ms * length ts" ts ms]
  by (simp add: generateBenchmarkResults_def Let_def notify_logged)

text \<open>
  When the provider of every model is configured, \<open>callModel\<close> is invoked for every pair,
  in the order of the loops.
\<close>

lemma configured_pair_calls:
  assumes "\<forall>w. isProviderConfigured e w (provider m)"
  shows "calls (benchmarkPair e p n m t st) = calls st @ [(m, t)]"
  using assms by (simp add: benchmarkPair_def Let_def split_beta split: sum.splits)

lemma configured_inner_calls:
  assumes "\<forall>w. isProviderConfigured e w (provider m)"
  shows "calls (fold (benchmarkPair e p n m) ts st) = calls st @ map (Pair m) ts"
  by (induction ts arbitrary: st) (simp_all add: configured_pair_calls [OF assms])

lemma configured_outer_calls:
  assumes "\<forall>m\<in>set ms. \<forall>w. isProviderConfigured e w (provider m)"
  shows "calls (fold (\<lambda>m. fold (benchmarkPair e p n m) ts) ms st) = calls st @ List.product ms ts"
  using assms by (induction ms arbitrary: st) (simp_all add: configured_inner_calls)

lemma configured_run_log:
  assumes "\<forall>m\<in>set ms. \<forall>w. isProviderConfigured e w (provider m)"
  shows "snd (world (generateBenchmarkResults (logged e) (logged_progress p) ms ts (w, [])))
           = List.product ms ts"
proof -
  have "\<forall>m\<in>set ms. \<forall>wl. isProviderConfigured (logged e) wl (provider m)"
    using assms by (simp add: logged_def)
  then have "calls (generateBenchmarkResults (logged e) (logged_progress p) ms ts (w, []))
      = List.product ms ts"
    by (simp add: generateBenchmarkResults_def Let_def configured_outer_calls)
  then show ?thesis
    by (simp add: logged_run_log)
qed

text \<open>
  Claim C5. The pairs are processed one after the other, model by model and, for each
  model, task by task. The returned list has one record for each pair. When the loops
  reach \<open>models[i]\<close> and \<open>tasks[j]\<close>, the records of the \<open>i * |tasks| + j\<close> pairs before are
  in the list and no other; the record at position \<open>i * |tasks| + j\<close> of the returned
  list is the record of \<open>models[i]\<close> and \<open>tasks[j]\<close>: it has their ids and the prompt, and
  it is what the service and the clock give for this pair in the world that the pairs
  before have left. The invocations of \<open>callModel\<close> that a service records follow the
  order of the pairs; when the provider of every model is configured they are the
  pairs in that order, each once; and recording them does not change the records.
\<close>

theorem generateBenchmarkResults_order:
  assumes "i < length ms" and "j < length ts"
  shows
    "length (results (generateBenchmarkResults e p ms ts w)) = length ms * length ts \<and>
     results (loopState e p ms ts w i j)
       = take (i * length ts + j) (results (generateBenchmarkResults e p ms ts w)) \<and>
     completed (loopState e p ms ts w i j) = i * length ts + j \<and>
     modelId (results (generateBenchmarkResults e p ms ts w) ! (i * length ts + j))
       = model_id (ms ! i) \<and>
     taskId (results (generateBenchmarkResults e p ms ts w) ! (i * length ts + j))
       = task_id (ts ! j) \<and>
     input (results (generateBenchmarkResults e p ms ts w) ! (i * length ts + j))
       = prompt (ts ! j) \<and>
     results (generateBenchmarkResults e p ms ts w) ! (i * length ts + j) =
       (let w0 = notify p (real (i * length ts + j) / real (length ms * length ts) * 100)
                   (Some (model_name (ms ! i))) (world (loopState e p ms ts w i j))
        in if \<not> isProviderConfigured e w0 (provider (ms ! i))
           then unconfiguredResult (ms ! i) (ts ! j) (fst (Date_now e w0))
           else (case callModel e (ms ! i) (ts ! j) (snd (Date_now e w0)) of
                   (Inl err, w2) \<Rightarrow> thrownResult (ms ! i) (ts ! j) err (fst (Date_now e w2))
                 | (Inr response, w2) \<Rightarrow>
                     resolvedResult (ms ! i) (ts ! j) response (fst (Date_now e w0))
                       (fst (Date_now e w2)) (fst (Date_now e (snd (Date_now e w2)))))) \<and>
     subseq (snd (world (generateBenchmarkResults (logged e) (logged_progress p) ms ts (w, []))))
       (List.product ms ts) \<and>
     ((\<forall>m\<in>set ms. \<forall>w'. isProviderConfigured e w' (provider m)) \<longrightarrow>
        snd (world (generateBenchmarkResults (logged e) (logged_progress p) ms ts (w, [])))
          = List.product ms ts) \<and>
     results (generateBenchmarkResults (logged e) (logged_progress p) ms ts (w, []))
       = results (generateBenchmarkResults e p ms ts w)"
  using generateBenchmarkResults_ids [OF assms, of e p w]
    generateBenchmarkResults_nth [OF assms, of e p w]
    loopState_reached(2) [OF assms, of e p w]
    logged_run_subseq [of e p ms ts w]
    configured_run_log [of ms e p ts w]
    logged_run_same [of e p ms ts w]
  by simp

text \<open>
  Two models and two tasks against the service whose SDK calls all fail: the fourth
  record is the one of the second model and the second task, and \<open>callModel\<close> has been
  invoked for the four pairs in the order of the loops.
\<close>

theorem generateBenchmarkResults_order_witness:
  "length (results (generateBenchmarkResults failingService None
             [mockModel, model2] [mockTask, task2] 0)) = 4 \<and>
   modelId (results (generateBenchmarkResults failingService None
             [mockModel, model2] [mockTask, task2] 0) ! 3) = ''gpt-3.5'' \<and>
   taskId (results (generateBenchmarkResults failingService None
             [mockModel, model2] [mockTask, task2] 0) ! 3) = ''task-2'' \<and>
   snd (world (generateBenchmarkResults (logged failingService) None
             [mockModel, model2] [mockTask, task2] (0, [])))
     = [(mockModel, mockTask), (mockModel, task2), (model2, mockTask), (model2, task2)]"
proof -
  let ?ms = "[mockModel, model2]"
  let ?ts = "[mockTask, task2]"
  let ?rs = "results (generateBenchmarkResults failingService None ?ms ?ts 0)"
  have cfg: "\<forall>m\<in>set ?ms. \<forall>w'. isProviderConfigured failingService w' (provider m)"
    by (simp add: failingService_def apiService_def APIService_isProviderConfigured_def
        allClients_def mockModel_def model2_def)
  have i: "1 < length ?ms" and j: "1 < length ?ts"
    by simp_all
  have "length ?rs = length ?ms * length ?ts"
    and "modelId (?rs ! (1 * length ?ts + 1)) = model_id (?ms ! 1)"
    and "taskId (?rs ! (1 * length ?ts + 1)) = task_id (?ts ! 1)"
    and "snd (world (generateBenchmarkResults (logged failingService) (logged_progress None)
                ?ms ?ts (0, []))) = List.product ?ms ?ts"
    using cfg generateBenchmarkResults_order
        [OF i j, where e = failingService and p = None and w = 0]
    by blast+
  then show ?thesis
    by (simp add: model2_def task2_def eval_nat_numeral)
qed

subsection \<open>Records of failed pairs\<close>

text \<open>
  The record of a provider that is not configured and the record of the \<open>catch\<close> block
  have score, quality, cost and output tokens 0.
\<close>

lemma unconfiguredResult_zero:
  "score (unconfiguredResult m t ts) = 0 \<and> quality (unconfiguredResult m t ts) = 0 \<and>
   cost (unconfiguredResult m t ts) = 0 \<and> outputTokens (unconfiguredResult m t ts) = 0 \<and>
   truthy_string (error (unconfiguredResult m t ts))"
  by (simp add: unconfiguredResult_def)

lemma thrownResult_zero:
  "score (thrownResult m t err ts) = 0 \<and> quality (thrownResult m t err ts) = 0 \<and>
   cost (thrownResult m t err ts) = 0 \<and> outputTokens (thrownResult m t err ts) = 0 \<and>
   error (thrownResult m t err ts)
     = Some (case err of Error msg \<Rightarrow> msg | NonError \<Rightarrow> ''Unknown error occurred'')"
  by (simp add: thrownResult_def)




section \<open>Properties of the security service\<close>

subsection \<open>sanitizeInput\<close>

lemma set_replaceAll: "set (replaceAll c r s) \<subseteq> (set s - {c}) \<union> set r"
  by (induction s) (auto simp: replaceAll_def)

lemma replaceAll_absent: "c \<notin> set s \<Longrightarrow> replaceAll c r s = s"
  by (induction s) (auto simp: replaceAll_def)

lemma set_trim: "set (trim s) \<subseteq> set s"
proof
  fix x
  assume "x \<in> set (trim s)"
  then have "x \<in> set (dropWhile isWhiteSpace (rev (dropWhile isWhiteSpace s)))"
    by (simp add: trim_def)
  then have "x \<in> set (rev (dropWhile isWhiteSpace s))"
    by (rule set_dropWhileD)
  then have "x \<in> set (dropWhile isWhiteSpace s)"
    by simp
  then show "x \<in> set s"
    by (rule set_dropWhileD)
qed

lemma dropWhile_last:
  "xs \<noteq> [] \<Longrightarrow> \<not> P (last xs) \<Longrightarrow> dropWhile P xs \<noteq> [] \<and> last (dropWhile P xs) = last xs"
  by (induction xs) auto

lemma trim_head: "case trim s of [] \<Rightarrow> True | c # cs \<Rightarrow> \<not> isWhiteSpace c"
proof (cases "dropWhile isWhiteSpace s = []")
  case True
  show ?thesis unfolding trim_def True by simp
next
  case False
  let ?t = "dropWhile isWhiteSpace s"
  have h: "\<not> isWhiteSpace (hd ?t)" using False by (rule hd_dropWhile)
  have "rev ?t \<noteq> []" "\<not> isWhiteSpace (last (rev ?t))"
    using False h by (simp_all add: last_rev)
  from dropWhile_last [where P = isWhiteSpace and xs = "rev ?t", OF this]
  have "dropWhile isWhiteSpace (rev ?t) \<noteq> []"
    "last (dropWhile isWhiteSpace (rev ?t)) = hd ?t" using False by (simp_all add: last_rev)
  then have "trim s \<noteq> []" "hd (trim s) = hd ?t"
    by (simp_all add: trim_def hd_rev)
  with h show ?thesis by (cases "trim s") auto
qed

lemma trim_last: "case rev (trim s) of [] \<Rightarrow> True | c # cs \<Rightarrow> \<not> isWhiteSpace c"
proof -
  let ?u = "dropWhile isWhiteSpace (rev (dropWhile isWhiteSpace s))"
  have "rev (trim s) = ?u" by (simp add: trim_def)
  moreover have "?u = [] \<or> \<not> isWhiteSpace (hd ?u)"
    using hd_dropWhile by blast
  ultimately show ?thesis by (cases ?u) auto
qed

lemma trim_fixed:
  assumes "case s of [] \<Rightarrow> True | c # cs \<Rightarrow> \<not> isWhiteSpace c"
    and "case rev s of [] \<Rightarrow> True | c # cs \<Rightarrow> \<not> isWhiteSpace c"
  shows "trim s = s"
proof -
  have "dropWhile isWhiteSpace s = s" using assms(1) by (cases s) auto
  moreover have "dropWhile isWhiteSpace (rev s) = rev s" using assms(2) by (cases "rev s") auto
  ultimately show ?thesis by (simp add: trim_def)
qed

lemma trim_trim: "trim (trim s) = trim s"
  by (rule trim_fixed [OF trim_head trim_last])

lemma sanitizeInput_escaped:
  "set (sanitizeInput v) \<inter> {CHR ''<'', CHR ''>'', CHR 0x22, CHR 0x27, CHR ''/''} = {}"
proof (cases "\<exists>s. v = Json (JStr s)")
  case False
  then have "sanitizeInput v = []" by (cases v rule: sanitizeInput.cases) auto
  then show ?thesis by simp
next
  case True
  then obtain s where v: "v = Json (JStr s)" by blast
  let ?a = "replaceAll CHR ''<'' ''&lt;'' s"
  let ?b = "replaceAll CHR ''>'' ''&gt;'' ?a"
  let ?c = "replaceAll CHR 0x22 ''&quot;'' ?b"
  let ?d = "replaceAll CHR 0x27 ''&#x27;'' ?c"
  let ?e = "replaceAll CHR ''/'' ''&#x2F;'' ?d"
  have a: "CHR ''<'' \<notin> set ?a" using set_replaceAll [of "CHR ''<''" "''&lt;''" s] by auto
  have b: "CHR ''<'' \<notin> set ?b" "CHR ''>'' \<notin> set ?b"
    using a set_replaceAll [of "CHR ''>''" "''&gt;''" ?a] by auto
  have c: "CHR ''<'' \<notin> set ?c" "CHR ''>'' \<notin> set ?c" "CHR 0x22 \<notin> set ?c"
    using b set_replaceAll [of "CHR 0x22" "''&quot;''" ?b] by auto
  have d: "CHR ''<'' \<notin> set ?d" "CHR ''>'' \<notin> set ?d" "CHR 0x22 \<notin> set ?d" "CHR 0x27 \<notin> set ?d"
    using c set_replaceAll [of "CHR 0x27" "''&#x27;''" ?c] by auto
  have e: "CHR ''<'' \<notin> set ?e" "CHR ''>'' \<notin> set ?e" "CHR 0x22 \<notin> set ?e" "CHR 0x27 \<notin> set ?e"
     "CHR ''/'' \<notin> set ?e"
    using d set_replaceAll [of "CHR ''/''" "''&#x2F;''" ?d] by auto
  have "set (sanitizeInput v) \<subseteq> set ?e" using v set_trim by simp
  with e show ?thesis by auto
qed

lemma sanitizeInput_trimmed: "trim (sanitizeInput v) = sanitizeInput v"
proof (cases "\<exists>s. v = Json (JStr s)")
  case False
  then have "sanitizeInput v = []"
    by (cases v rule: sanitizeInput.cases) auto
  then show ?thesis
    by (simp add: trim_def)
next
  case True
  then obtain s where v: "v = Json (JStr s)"
    by blast
  show ?thesis
    unfolding v by (simp add: trim_trim)
qed

lemma sanitizeInput_idempotent:
  "sanitizeInput (Json (JStr (sanitizeInput v))) = sanitizeInput v"
proof -
  let ?r = "sanitizeInput v"
  have "CHR ''<'' \<notin> set ?r" "CHR ''>'' \<notin> set ?r" "CHR 0x22 \<notin> set ?r"
    "CHR 0x27 \<notin> set ?r" "CHR ''/'' \<notin> set ?r"
    using sanitizeInput_escaped [of v] by auto
  then show ?thesis
    by (simp add: replaceAll_absent sanitizeInput_trimmed)
qed

lemma sanitizeInput_ends:
  "(case sanitizeInput v of [] \<Rightarrow> True | c # cs \<Rightarrow> \<not> isWhiteSpace c) \<and>
   (case rev (sanitizeInput v) of [] \<Rightarrow> True | c # cs \<Rightarrow> \<not> isWhiteSpace c)"
  using trim_head [of "sanitizeInput v"] trim_last [of "sanitizeInput v"]
  by (simp add: sanitizeInput_trimmed)

text \<open>
  Claim C7. For every argument, the result of \<open>sanitizeInput\<close> contains none of the
  characters \<open><\<close>, \<open>>\<close>, \<open>"\<close>, \<open>'\<close> and \<open>/\<close>, and neither starts nor ends with white
  space; sanitizing the result again gives the result; and an argument that is not a
  string (\<open>undefined\<close>, \<open>null\<close>, a boolean, a number, an array, an object) gives the empty
  string.
\<close>

theorem sanitizeInput_postcondition:
  "set (sanitizeInput v) \<inter> {CHR ''<'', CHR ''>'', CHR 0x22, CHR 0x27, CHR ''/''} = {} \<and>
   (case sanitizeInput v of [] \<Rightarrow> True | c # cs \<Rightarrow> \<not> isWhiteSpace c) \<and>
   (case rev (sanitizeInput v) of [] \<Rightarrow> True | c # cs \<Rightarrow> \<not> isWhiteSpace c) \<and>
   sanitizeInput (Json (JStr (sanitizeInput v))) = sanitizeInput v \<and>
   sanitizeInput Undefined = [] \<and> sanitizeInput (Json JNull) = [] \<and>
   sanitizeInput (Json (JBool b)) = [] \<and> sanitizeInput (Json (JNum n)) = [] \<and>
   sanitizeInput (Json (JArr xs)) = [] \<and> sanitizeInput (Json (JObj kvs)) = []"
  using sanitizeInput_escaped [of v] sanitizeInput_ends [of v] sanitizeInput_idempotent [of v]
  by simp

subsection \<open>checkRateLimit\<close>

lemma checkRateLimit_invariant:
  assumes "1 \<le> maxRequests"
    and "case rl (''ratelimit_'' @ prov) of None \<Rightarrow> True
         | Some e \<Rightarrow> 1 \<le> count e \<and> count e \<le> maxRequests"
  shows "case snd (checkRateLimit now prov maxRequests windowMs rl) (''ratelimit_'' @ prov) of
           None \<Rightarrow> True | Some e \<Rightarrow> 1 \<le> count e \<and> count e \<le> maxRequests"
  using assms by (auto simp: checkRateLimit_def Let_def split: option.splits)

lemma checkRateLimits_invariant:
  assumes "1 \<le> maxRequests"
    and "case rl (''ratelimit_'' @ prov) of None \<Rightarrow> True
         | Some e \<Rightarrow> 1 \<le> count e \<and> count e \<le> maxRequests"
  shows "case snd (checkRateLimits prov maxRequests windowMs nows rl) (''ratelimit_'' @ prov) of
           None \<Rightarrow> True | Some e \<Rightarrow> 1 \<le> count e \<and> count e \<le> maxRequests"
  using assms(2)
proof (induction nows arbitrary: rl)
  case Nil
  then show ?case by simp
next
  case (Cons now nows)
  have "case snd (checkRateLimit now prov maxRequests windowMs rl) (''ratelimit_'' @ prov) of
           None \<Rightarrow> True | Some e \<Rightarrow> 1 \<le> count e \<and> count e \<le> maxRequests"
    using assms(1) Cons.prems by (rule checkRateLimit_invariant)
  then have "case snd (checkRateLimits prov maxRequests windowMs nows
                      (snd (checkRateLimit now prov maxRequests windowMs rl)))
                 (''ratelimit_'' @ prov) of
           None \<Rightarrow> True | Some e \<Rightarrow> 1 \<le> count e \<and> count e \<le> maxRequests"
    by (rule Cons.IH)
  then show ?case
    by (simp add: split_beta)
qed

lemma checkRateLimits_in_window:
  assumes "rl (''ratelimit_'' @ prov) = Some e"
    and "list_all (\<lambda>t. t \<le> resetTime e) nows"
    and "count e \<le> maxRequests"
  shows "int (length (filter (\<lambda>ok. ok) (fst (checkRateLimits prov maxRequests windowMs nows rl))))
           \<le> maxRequests - count e"
  using assms
proof (induction nows arbitrary: rl e)
  case Nil
  then show ?case by simp
next
  case (Cons now nows)
  have now: "\<not> now > resetTime e" and rest: "list_all (\<lambda>t. t \<le> resetTime e) nows"
    using Cons.prems(2) by auto
  show ?case
  proof (cases "count e \<ge> maxRequests")
    case True
    then have step: "checkRateLimit now prov maxRequests windowMs rl = (False, rl)"
      using Cons.prems(1) now by (simp add: checkRateLimit_def)
    have "int (length (filter (\<lambda>ok. ok) (fst (checkRateLimits prov maxRequests windowMs nows rl))))
           \<le> maxRequests - count e"
      using Cons.prems(1) rest Cons.prems(3) by (rule Cons.IH)
    then show ?thesis
      by (simp add: step split_beta)
  next
    case False
    let ?e = "e\<lparr>count := count e + 1\<rparr>"
    let ?rl = "rl(''ratelimit_'' @ prov \<mapsto> ?e)"
    have step: "checkRateLimit now prov maxRequests windowMs rl = (True, ?rl)"
      using Cons.prems(1) now False by (simp add: checkRateLimit_def)
    have "int (length (filter (\<lambda>ok. ok) (fst (checkRateLimits prov maxRequests windowMs nows ?rl))))
           \<le> maxRequests - count ?e"
      using rest False by (intro Cons.IH) simp_all
    then show ?thesis
      by (simp add: step split_beta)
  qed
qed

lemma checkRateLimits_window:
  assumes "1 \<le> maxRequests"
    and "case rl (''ratelimit_'' @ prov) of None \<Rightarrow> True | Some e \<Rightarrow> now > resetTime e"
    and "list_all (\<lambda>t. t \<le> now + windowMs) nows"
  shows "int (length (filter (\<lambda>ok. ok)
                 (fst (checkRateLimits prov maxRequests windowMs (now # nows) rl))))
           \<le> maxRequests"
proof -
  let ?e = "\<lparr>count = 1, resetTime = now + windowMs\<rparr>"
  let ?rl = "rl(''ratelimit_'' @ prov \<mapsto> ?e)"
  have step: "checkRateLimit now prov maxRequests windowMs rl = (True, ?rl)"
    using assms(2) by (simp add: checkRateLimit_def split: option.splits)
  have "int (length (filter (\<lambda>ok. ok)
                (fst (checkRateLimits prov maxRequests windowMs nows ?rl))))
           \<le> maxRequests - count ?e"
    using assms(1,3) by (intro checkRateLimits_in_window) simp_all
  then show ?thesis
    by (simp add: step split_beta)
qed

lemma checkRateLimit_reset:
  assumes "rl (''ratelimit_'' @ prov) = Some e" and "now > resetTime e"
  shows "checkRateLimit now prov maxRequests windowMs rl
     = (True, rl(''ratelimit_'' @ prov \<mapsto> \<lparr>count = 1, resetTime = now + windowMs\<rparr>))"
  using assms by (simp add: checkRateLimit_def)

text \<open>
  Claim C4, as the code has it: for a limit \<open>maxRequests\<close> of at least 1. Any sequence of
  calls with fixed parameters keeps the stored count of the provider between 1 and
  \<open>maxRequests\<close>. Of the calls of one window (the call that opens it, made when the
  provider has no entry or its \<open>resetTime\<close> has passed, and the calls that follow up to
  the new \<open>resetTime\<close>), at most \<open>maxRequests\<close> return \<open>true\<close>. The first call after the
  \<open>resetTime\<close> has passed returns \<open>true\<close> and stores the count 1 with a new \<open>resetTime\<close>.
\<close>

theorem checkRateLimit_limit:
  assumes "1 \<le> maxRequests"
  shows
    "((case rl (''ratelimit_'' @ prov) of None \<Rightarrow> True
       | Some e \<Rightarrow> 1 \<le> count e \<and> count e \<le> maxRequests) \<longrightarrow>
      (case snd (checkRateLimits prov maxRequests windowMs nows rl) (''ratelimit_'' @ prov) of
         None \<Rightarrow> True | Some e \<Rightarrow> 1 \<le> count e \<and> count e \<le> maxRequests)) \<and>
     ((case rl (''ratelimit_'' @ prov) of None \<Rightarrow> True | Some e \<Rightarrow> now > resetTime e) \<and>
      list_all (\<lambda>t. t \<le> now + windowMs) nows \<longrightarrow>
      int (length (filter (\<lambda>ok. ok)
             (fst (checkRateLimits prov maxRequests windowMs (now # nows) rl))))
        \<le> maxRequests) \<and>
     (rl (''ratelimit_'' @ prov) = Some e \<and> now > resetTime e \<longrightarrow>
      checkRateLimit now prov maxRequests windowMs rl
        = (True, rl(''ratelimit_'' @ prov \<mapsto> \<lparr>count = 1, resetTime = now + windowMs\<rparr>)))"
  using checkRateLimits_invariant
      [OF assms, where rl = rl and prov = prov and windowMs = windowMs and nows = nows]
    checkRateLimits_window
      [OF assms, where rl = rl and prov = prov and now = now and windowMs = windowMs
        and nows = nows]
    checkRateLimit_reset
      [where rl = rl and prov = prov and e = e and now = now and maxRequests = maxRequests
        and windowMs = windowMs]
  by blast

text \<open>
  The test of the limit: five calls pass and the sixth is refused, 5 being the count
  stored; and a call after the \<open>resetTime\<close> (61000 here) opens a new window.
\<close>

theorem checkRateLimit_limit_witness:
  "map_option count
     (snd (checkRateLimits ''rate-limit-test'' 5 60000 [1000, 1001, 1002, 1003, 1004, 1005]
        Map.empty) ''ratelimit_rate-limit-test'') = Some 5 \<and>
   fst (checkRateLimits ''rate-limit-test'' 5 60000 [1000, 1001, 1002, 1003, 1004, 1005] Map.empty)
     = [True, True, True, True, True, False] \<and>
   checkRateLimit 61001 ''rate-limit-test'' 5 60000
     (Map.empty(''ratelimit_rate-limit-test'' \<mapsto> \<lparr>count = 5, resetTime = 61000\<rparr>))
     = (True, Map.empty(''ratelimit_rate-limit-test'' \<mapsto> \<lparr>count = 1, resetTime = 121001\<rparr>))"
  using checkRateLimit_limit [where maxRequests = 5 and rl = Map.empty
      and prov = "''rate-limit-test''" and windowMs = 60000 and now = 1000
      and nows = "[1001, 1002, 1003, 1004, 1005]"
      and e = "\<lparr>count = 5, resetTime = 61000\<rparr>"]
    checkRateLimit_limit [where maxRequests = 5
      and rl = "Map.empty(''ratelimit_rate-limit-test'' \<mapsto> \<lparr>count = 5, resetTime = 61000\<rparr>)"
      and prov = "''rate-limit-test''" and windowMs = 60000 and now = 61001 and nows = "[]"
      and e = "\<lparr>count = 5, resetTime = 61000\<rparr>"]
  by (simp add: checkRateLimit_def)

text \<open>
  The claim as stated covers every \<open>maxRequests\<close>. With a limit of 0 the first call of
  a provider returns \<open>true\<close> and stores the count 1, above the limit.
\<close>

theorem checkRateLimit_zero_limit_counterexample:
  "fst (checkRateLimit 1000 ''OpenAI'' 0 60000 Map.empty) \<and>
   map_option count (snd (checkRateLimit 1000 ''OpenAI'' 0 60000 Map.empty) ''ratelimit_OpenAI'')
     = Some 1"
  by (simp add: checkRateLimit_def)

subsection \<open>secureStore and secureRetrieve\<close>

lemma digits_nonempty: "digits radix n \<noteq> []"
  by (induction radix n rule: digits.induct) (subst digits.simps, simp)

lemma generateChecksum_nonempty: "generateChecksum s \<noteq> []"
  by (simp add: generateChecksum_def toStringRadix_def digits_nonempty)

lemma generateChecksum_testData: "generateChecksum (JSON_stringify testData) = ''-r8x4gk''"
  by (simp add: testData_def quote_def escapeChar_def generateChecksum_def hashStep_def
      toInt32_def toStringRadix_def digits.simps digit36_def)

text \<open>
  Claim C3, as the code has it: for the values that are truthy. If
  \<open>secureStore(k, v)\<close> succeeds for a JSON value \<open>v\<close> other than \<open>''\<close>, \<open>0\<close>, \<open>false\<close>
  and \<open>null\<close>, at a time \<open>now\<close> other than 0, then \<open>secureRetrieve(k)\<close> on the storage it
  leaves, at a time no more than 30 days after \<open>now\<close>, returns \<open>v\<close> and leaves the
  storage as it is.
\<close>

theorem secureStore_roundtrip:
  assumes "secureStore full stringify now k (Json v) ls = Inr ls'"
    and "truthy v" and "now \<noteq> 0"
    and "real_of_int now' - real_of_int now \<le> maxAge"
  shows "secureRetrieve stringify toNumber now' k ls' = (v, ls')"
proof -
  let ?data = "JObj [(''value'', v), (''timestamp'', JNum (real_of_int now)),
                     (''checksum'', JStr (generateChecksum (stringify v)))]"
  have ls': "ls' = ls(k \<mapsto> JSONText ?data)"
    using assms(1) by (simp add: secureStore_def Let_def split: if_splits)
  show ?thesis
    using assms(2-4) generateChecksum_nonempty
    by (simp add: ls' secureRetrieve_def)
qed

theorem secureStore_roundtrip_witness:
  "secureStore neverFull JSON_stringify 1700000000000 ''test-key'' (Json testData) Map.empty
     = Inr (storedTestData 1700000000000) \<and>
   secureRetrieve JSON_stringify toNaN 1700000001000 ''test-key'' (storedTestData 1700000000000)
     = (testData, storedTestData 1700000000000)"
proof -
  have stored:
    "secureStore neverFull JSON_stringify 1700000000000 ''test-key'' (Json testData) Map.empty
       = Inr (storedTestData 1700000000000)"
    by (simp add: secureStore_def storedTestData_def neverFull_def generateChecksum_testData)
  have "truthy testData"
    by (simp add: testData_def)
  moreover have "real_of_int 1700000001000 - real_of_int 1700000000000 \<le> maxAge"
    by (simp add: maxAge_def)
  ultimately show ?thesis
    using stored
      secureStore_roundtrip [OF stored, where now' = 1700000001000 and toNumber = toNaN]
    by simp
qed

text \<open>
  The claim as stated includes the falsy values. After \<open>secureStore(k, '')\<close>,
  \<open>secureStore(k, 0)\<close> and \<open>secureStore(k, false)\<close> have succeeded, \<open>secureRetrieve(k)\<close>
  returns \<open>null\<close> (and removes the entry).
\<close>

theorem secureStore_falsy_counterexample:
  "(case secureStore neverFull JSON_stringify 1700000000000 ''k'' (Json (JStr [])) Map.empty of
      Inl err \<Rightarrow> False
    | Inr ls \<Rightarrow> secureRetrieve JSON_stringify toNaN 1700000000000 ''k'' ls = (JNull, Map.empty)) \<and>
   (case secureStore neverFull JSON_stringify 1700000000000 ''k'' (Json (JNum 0)) Map.empty of
      Inl err \<Rightarrow> False
    | Inr ls \<Rightarrow> secureRetrieve JSON_stringify toNaN 1700000000000 ''k'' ls = (JNull, Map.empty)) \<and>
   (case secureStore neverFull JSON_stringify 1700000000000 ''k'' (Json (JBool False)) Map.empty of
      Inl err \<Rightarrow> False
    | Inr ls \<Rightarrow> secureRetrieve JSON_stringify toNaN 1700000000000 ''k'' ls = (JNull, Map.empty))"
  by (simp add: secureStore_def secureRetrieve_def neverFull_def)

text \<open>
  Claim C6, as the code has it: for a stored string that is not empty. If the string
  stored under \<open>k\<close> is not empty and is not valid JSON, or parses to a value that lacks
  one of the fields \<open>value\<close>, \<open>timestamp\<close>, \<open>checksum\<close> (\<open>null\<close> has none), or whose
  \<open>checksum\<close> is not the checksum of its \<open>value\<close>, or whose \<open>timestamp\<close> is a number more
  than 30 days before now, then \<open>secureRetrieve(k)\<close> returns \<open>null\<close> and removes the
  entry of \<open>k\<close>.
\<close>

theorem secureRetrieve_integrity:
  assumes "ls k = Some blob"
    and "(\<exists>s. blob = NotJSON s \<and> s \<noteq> []) \<or>
         (\<exists>data. blob = JSONText data \<and>
            (data = JNull \<or> property data ''value'' = Inr None
             \<or> property data ''timestamp'' = Inr None
             \<or> property data ''checksum'' = Inr None
             \<or> (\<exists>v c. property data ''value'' = Inr (Some v)
                    \<and> property data ''checksum'' = Inr (Some c)
                    \<and> c \<noteq> JStr (generateChecksum (stringify v)))
             \<or> (\<exists>t. property data ''timestamp'' = Inr (Some (JNum t))
                    \<and> real_of_int now - t > maxAge)))"
  shows "secureRetrieve stringify toNumber now k ls = (JNull, ls(k := None))"
  using assms
  by (auto simp: secureRetrieve_def split: sum.splits option.splits)

text \<open>
  The tests of the suite: a string that is not JSON, a corrupted checksum, and a
  timestamp 31 days old.
\<close>

theorem secureRetrieve_integrity_witness:
  "secureRetrieve JSON_stringify toNaN 1700000000000 ''test-corrupted''
     (Map.empty(''test-corrupted'' \<mapsto> NotJSON ''invalid-json'')) = (JNull, Map.empty) \<and>
   secureRetrieve JSON_stringify toNaN 1700000000000 ''test-key''
     (Map.empty(''test-key'' \<mapsto>
        JSONText (JObj [(''value'', testData), (''timestamp'', JNum 1700000000000),
                        (''checksum'', JStr ''corrupted'')]))) = (JNull, Map.empty) \<and>
   secureRetrieve JSON_stringify toNaN 1702678400000 ''test-key'' (storedTestData 1700000000000)
     = (JNull, Map.empty)"
  using secureRetrieve_integrity
      [where ls = "Map.empty(''test-corrupted'' \<mapsto> NotJSON ''invalid-json'')"
        and k = "''test-corrupted''" and blob = "NotJSON ''invalid-json''"
        and stringify = JSON_stringify and now = 1700000000000 and toNumber = toNaN]
    secureRetrieve_integrity
      [where ls = "Map.empty(''test-key'' \<mapsto>
          JSONText (JObj [(''value'', testData), (''timestamp'', JNum 1700000000000),
                          (''checksum'', JStr ''corrupted'')]))"
        and k = "''test-key''"
        and blob = "JSONText (JObj [(''value'', testData), (''timestamp'', JNum 1700000000000),
                          (''checksum'', JStr ''corrupted'')])"
        and stringify = JSON_stringify and now = 1700000000000 and toNumber = toNaN]
    secureRetrieve_integrity
      [where ls = "storedTestData 1700000000000" and k = "''test-key''"
        and blob = "JSONText (JObj [(''value'', testData), (''timestamp'', JNum 1700000000000),
                          (''checksum'', JStr ''-r8x4gk'')])"
        and stringify = JSON_stringify and now = 1702678400000 and toNumber = toNaN]
  by (simp add: storedTestData_def generateChecksum_testData maxAge_def)

text \<open>
  The claim as stated covers the empty string, which is not valid JSON: for it
  \<open>secureRetrieve\<close> returns \<open>null\<close> at the test \<open>!stored\<close> and the entry stays.
\<close>

theorem secureRetrieve_empty_string_counterexample:
  "secureRetrieve JSON_stringify toNaN 0 ''k'' (Map.empty(''k'' \<mapsto> NotJSON []))
     = (JNull, Map.empty(''k'' \<mapsto> NotJSON []))"
  by (simp add: secureRetrieve_def)

subsection \<open>validateApiKey\<close>

lemma providerKeyOf_lower:
  "toLowerCase prov = l \<Longrightarrow>
   providerKeyOf prov = replace (replace (replace l '' '' []) ''ai'' []) ''meta'' ''huggingface''"
  by (simp add: providerKeyOf_def)

text \<open>
  For \<open>OpenAI\<close>, in any case of the letters, the provider key is \<open>open\<close>: the step
  \<open>replace('ai', '')\<close>, which is there to turn \<open>mistralai\<close> into \<open>mistral\<close>, also takes
  the end of \<open>openai\<close>. No pattern has that name, so no key is checked.
\<close>

lemma validateApiKey_openai:
  assumes "toLowerCase prov = ''openai''" and "trim key \<noteq> []"
  shows "validateApiKey prov key =
     Inr \<lparr>isValid = True, error_val = None,
          warning = Some ''Unknown provider - cannot validate key format''\<rparr>"
proof -
  have "providerKeyOf prov = ''open''"
    using providerKeyOf_lower [OF assms(1)] by (simp add: startsWith_def)
  moreover have "key \<noteq> []"
    using assms(2) by (auto simp: trim_def)
  ultimately show ?thesis
    using assms(2) by (simp add: validateApiKey_def API_KEY_PATTERNS_def inheritedNames_def)
qed

text \<open>The other four providers are checked against their patterns, after trimming.\<close>

lemma validateApiKey_checked:
  assumes "(toLowerCase prov, pattern) \<in> set
             [(''anthropic'', anthropic_pattern), (''google'', google_pattern),
              (''meta'', huggingface_pattern), (''huggingface'', huggingface_pattern),
              (''mistral ai'', mistral_pattern), (''mistralai'', mistral_pattern),
              (''mistral'', mistral_pattern)]"
    and "trim key \<noteq> []"
  shows "validateApiKey prov key =
     Inr (if pattern (trim key) then \<lparr>isValid = True, error_val = None, warning = None\<rparr>
          else \<lparr>isValid = False,
                error_val = Some (''Invalid '' @ prov @ '' API key format. Please check your key.''),
                warning = None\<rparr>)"
proof -
  have key: "key \<noteq> []"
    using assms(2) by (auto simp: trim_def)
  from assms(1) consider
      "toLowerCase prov = ''anthropic''" "pattern = anthropic_pattern"
    | "toLowerCase prov = ''google''" "pattern = google_pattern"
    | "toLowerCase prov = ''meta''" "pattern = huggingface_pattern"
    | "toLowerCase prov = ''huggingface''" "pattern = huggingface_pattern"
    | "toLowerCase prov = ''mistral ai''" "pattern = mistral_pattern"
    | "toLowerCase prov = ''mistralai''" "pattern = mistral_pattern"
    | "toLowerCase prov = ''mistral''" "pattern = mistral_pattern"
    by auto
  then have "map_of API_KEY_PATTERNS (providerKeyOf prov) = Some pattern"
  proof cases
    case 1
    then show ?thesis
      using providerKeyOf_lower [OF 1(1)] by (simp add: startsWith_def API_KEY_PATTERNS_def)
  next
    case 2
    then show ?thesis
      using providerKeyOf_lower [OF 2(1)] by (simp add: startsWith_def API_KEY_PATTERNS_def)
  next
    case 3
    then show ?thesis
      using providerKeyOf_lower [OF 3(1)] by (simp add: startsWith_def API_KEY_PATTERNS_def)
  next
    case 4
    then show ?thesis
      using providerKeyOf_lower [OF 4(1)] by (simp add: startsWith_def API_KEY_PATTERNS_def)
  next
    case 5
    then show ?thesis
      using providerKeyOf_lower [OF 5(1)] by (simp add: startsWith_def API_KEY_PATTERNS_def)
  next
    case 6
    then show ?thesis
      using providerKeyOf_lower [OF 6(1)] by (simp add: startsWith_def API_KEY_PATTERNS_def)
  next
    case 7
    then show ?thesis
      using providerKeyOf_lower [OF 7(1)] by (simp add: startsWith_def API_KEY_PATTERNS_def)
  qed
  then show ?thesis
    using key assms(2) by (simp add: validateApiKey_def)
qed

text \<open>
  Claim C2 at the key of the test suite. \<open>invalid-key\<close> does not match
  \<open>/^sk-[a-zA-Z0-9]{20,}$/\<close>, and \<open>validateApiKey('openai', 'invalid-key')\<close> returns
  \<open>isValid: true\<close> with the warning of an unknown provider, where the claim and the test
  expect \<open>isValid: false\<close> with an error.
\<close>

theorem validateApiKey_openai_accepts_invalid_key:
  "\<not> openai_pattern ''invalid-key'' \<and>
   validateApiKey ''openai'' ''invalid-key'' =
     Inr \<lparr>isValid = True, error_val = None,
          warning = Some ''Unknown provider - cannot validate key format''\<rparr> \<and>
   validateApiKey ''OpenAI'' ''invalid-key'' =
     Inr \<lparr>isValid = True, error_val = None,
          warning = Some ''Unknown provider - cannot validate key format''\<rparr>"
  by (simp add: validateApiKey_def providerKeyOf_def toLowerCase_def lowerChar_def isCapital_def
      startsWith_def trim_def isWhiteSpace_def API_KEY_PATTERNS_def inheritedNames_def
      openai_pattern_def)

section \<open>Properties of the API service\<close>

lemma callModel_cases:
  "APIService_callModel cl s m t w =
     (case callProvider cl s m t (fst (clock s w)) (snd (clock s w)) of
        (Inr response, w1) \<Rightarrow> (Inr response, w1)
      | (Inl err, w1) \<Rightarrow>
          (Inr \<lparr>content = [], usage_inputTokens = 0, usage_outputTokens = 0,
                latency_resp = fst (clock s w1) - fst (clock s w),
                error_resp = Some (case err of Error msg \<Rightarrow> msg
                                             | NonError \<Rightarrow> ''Unknown error'')\<rparr>,
           snd (clock s w1)))"
  by (simp add: APIService_callModel_def split_beta split: sum.splits)

lemma chatResponse_error: "error_resp (chatResponse r l) = None"
  by (simp add: chatResponse_def)

lemma callProvider_success:
  "callProvider cl s m t st w = (Inr r, w') \<Longrightarrow> error_resp r = None"
  by (auto simp: callProvider_def callOpenAI_def callAnthropic_def callGoogle_def
      callHuggingFace_def callMistral_def chatResponse_error Let_def
      split: if_splits prod.splits sum.splits)

lemma callProvider_unsupported:
  "provider m \<notin> set [''OpenAI'', ''Anthropic'', ''Google'', ''Meta'', ''Mistral AI''] \<Longrightarrow>
   callProvider cl s m t st w = (Inl (Error (''Unsupported provider: '' @ provider m)), w)"
  by (simp add: callProvider_def)

text \<open>
  Claim C9, as the code has it. \<open>callModel\<close> never rejects. When the provider is not
  supported or the call of the provider throws, the response has the content \<open>''\<close>,
  the usage \<open>{0, 0}\<close> and as \<open>error\<close> the message of the \<open>Error\<close> thrown (\<open>Unknown error\<close>
  for a thrown value that is not an \<open>Error\<close>); so the \<open>error\<close> is not empty when that
  message is not, as for a provider that is not supported. When the call succeeds, the
  response is the one of the provider and has no \<open>error\<close>.
\<close>

theorem callModel_never_rejects:
  "\<exists>r w'. APIService_callModel cl s m t w = (Inr r, w') \<and>
     (case fst (callProvider cl s m t (fst (clock s w)) (snd (clock s w))) of
        Inl err \<Rightarrow>
          content r = [] \<and> usage_inputTokens r = 0 \<and> usage_outputTokens r = 0 \<and>
          error_resp r = Some (case err of Error msg \<Rightarrow> msg | NonError \<Rightarrow> ''Unknown error'') \<and>
          (err \<noteq> Error [] \<longrightarrow> truthy_string (error_resp r))
      | Inr response \<Rightarrow> r = response \<and> error_resp r = None) \<and>
     (provider m \<notin> set [''OpenAI'', ''Anthropic'', ''Google'', ''Meta'', ''Mistral AI'']
        \<longrightarrow> error_resp r = Some (''Unsupported provider: '' @ provider m))"
proof (cases "provider m \<in> set [''OpenAI'', ''Anthropic'', ''Google'', ''Meta'', ''Mistral AI'']")
  case True
  then show ?thesis
    using callProvider_success [of cl s m t "fst (clock s w)" "snd (clock s w)"]
    by (auto simp: callModel_cases split: prod.splits sum.splits thrown.splits)
next
  case False
  then show ?thesis
    using callProvider_unsupported [OF False, of cl s t "fst (clock s w)" "snd (clock s w)"]
    by (simp add: callModel_cases)
qed

theorem callModel_never_rejects_witness:
  "(\<exists>r w'. APIService_callModel allClients (throwingSdk (Error ''Network error''))
              (mockModel\<lparr>provider := ''Cohere''\<rparr>) mockTask 0 = (Inr r, w') \<and>
      content r = [] \<and> error_resp r = Some ''Unsupported provider: Cohere'') \<and>
   (\<exists>r w'. APIService_callModel allClients (throwingSdk (Error ''Network error''))
              mockModel mockTask 0 = (Inr r, w') \<and>
      content r = [] \<and> error_resp r = Some ''Network error'' \<and> truthy_string (error_resp r))"
  using callModel_never_rejects [of allClients "throwingSdk (Error ''Network error'')"
      "mockModel\<lparr>provider := ''Cohere''\<rparr>" mockTask 0]
    callModel_never_rejects [of allClients "throwingSdk (Error ''Network error'')"
      mockModel mockTask 0]
  by (simp add: callProvider_def callOpenAI_def throwingSdk_def allClients_def mockModel_def)
    blast

text \<open>
  The claim as stated has the \<open>error\<close> never empty. A provider call that throws an
  \<open>Error\<close> with the empty message gives a response whose \<open>error\<close> is the empty string,
  which the benchmark engine reads as no error.
\<close>

theorem callModel_empty_error_counterexample:
  "fst (APIService_callModel allClients (throwingSdk (Error [])) mockModel mockTask 0)
     = Inr \<lparr>content = [], usage_inputTokens = 0, usage_outputTokens = 0, latency_resp = 120,
            error_resp = Some []\<rparr>"
  by (simp add: APIService_callModel_def callProvider_def callOpenAI_def throwingSdk_def
      allClients_def mockModel_def)

section \<open>Properties of the recommendations\<close>

lemma getModelRecommendations_mset:
  "mset (getModelRecommendations ms task rs p)
     = mset (map (recommend ms p)
          (filter (\<lambda>r. taskId r = task_id task \<and> \<not> truthy_string (error r)) rs))"
  by (cases "filter (\<lambda>r. taskId r = task_id task \<and> \<not> truthy_string (error r)) rs = []")
     (simp_all add: getModelRecommendations_def Let_def)

lemma getModelRecommendations_sorted:
  "sorted_wrt (\<lambda>a b. score_rec a \<ge> score_rec b) (getModelRecommendations ms task rs p)"
proof -
  have "sorted (map (\<lambda>a. - score_rec a) (getModelRecommendations ms task rs p))"
    by (simp add: getModelRecommendations_def Let_def)
  then show ?thesis
    by (simp add: sorted_map)
qed

text \<open>
  Claim C10, as the code has it: a result counts when its \<open>taskId\<close> is the id of the
  task and its \<open>error\<close> is unset or the empty string. The recommendations are those of
  the results that count, one for each (as multisets), in non-increasing order of the
  score of the recommendation; there are as many as results that count, so none when
  no result counts.
\<close>

theorem getModelRecommendations_one_per_result:
  "mset (getModelRecommendations ms task rs p)
     = mset (map (recommend ms p)
          (filter (\<lambda>r. taskId r = task_id task \<and> \<not> truthy_string (error r)) rs)) \<and>
   sorted_wrt (\<lambda>a b. score_rec a \<ge> score_rec b) (getModelRecommendations ms task rs p) \<and>
   length (getModelRecommendations ms task rs p)
     = length (filter (\<lambda>r. taskId r = task_id task \<and> \<not> truthy_string (error r)) rs)"
  using getModelRecommendations_mset [of ms task rs p]
    getModelRecommendations_sorted [of ms task rs p]
    mset_eq_length [OF getModelRecommendations_mset [of ms task rs p]]
  by simp

text \<open>
  The claim as stated counts the results whose \<open>error\<close> is unset. A result of the task
  whose \<open>error\<close> is the empty string (the record of a call that failed with an empty
  message) gets a recommendation, although no result has its \<open>error\<close> unset.
\<close>

theorem getModelRecommendations_empty_error_counterexample:
  "getModelRecommendations [mockModel] mockTask
     [resolvedResult mockModel mockTask (mockResponse\<lparr>error_resp := Some []\<rparr>) 0 1500 1500]
     True \<noteq> [] \<and>
   filter (\<lambda>r. taskId r = task_id mockTask \<and> error r = None)
     [resolvedResult mockModel mockTask (mockResponse\<lparr>error_resp := Some []\<rparr>) 0 1500 1500]
     = []"
  by (simp add: getModelRecommendations_def resolvedResult_def Let_def mockResponse_def
      mockTask_def)

end
